theory Spec2Isabelle
  imports Complex_Main "HOL-Library.Log_Nat"
begin

section \<open>Python values\<close>

text \<open>
  A Python \<^verbatim>\<open>str\<close> is a sequence of Unicode code points; it is modelled as a list of
  natural numbers, so that a regular expression's \<^verbatim>\<open>.\<close> consumes exactly one element.
  \<open>py_str\<close> turns an ASCII literal into such a list.
\<close>

type_synonym str = "nat list"

definition py_str :: "string \<Rightarrow> str" where
  "py_str cs = map of_char cs"

text \<open>The exception classes that the modelled code can meet. \<open>PatternNotModelled\<close> is
  not one of Python's: it marks a regular expression outside the fragment modelled.\<close>

datatype py_exn =
    TypeError | KeyError | ValueError | OverflowError | ZeroDivisionError | OSError
  | RequestException | JSONDecodeError | CanvasException | ReError | PatternNotModelled

text \<open>
  Decoded JSON as \<^verbatim>\<open>response.json()\<close> returns it. An object keeps its members in document
  order; Python's \<^verbatim>\<open>dict\<close> keeps the last value of a repeated key. Numbers are the
  integers: the service reports identifiers and byte counts as JSON integers.
\<close>

datatype json =
    JNull | JBool bool | JInt int | JStr str | JArr "json list" | JObj "(str \<times> json) list"

text \<open>\<^verbatim>\<open>value[key]\<close> with a string key.\<close>

fun subscript :: "json \<Rightarrow> str \<Rightarrow> py_exn + json" where
  "subscript (JObj kvs) k = (case map_of (rev kvs) k of None \<Rightarrow> Inl KeyError | Some v \<Rightarrow> Inr v)"
| "subscript _ k = Inl TypeError"

section \<open>Local file system\<close>

text \<open>
  The file system is an association list from resolved paths (lists of components) to
  nodes; each node carries the size that \<^verbatim>\<open>os.path.getsize\<close> reports. Relative paths are
  resolved against a working directory taken as the root; \<^verbatim>\<open>..\<close> and symbolic links are
  not interpreted. The order of the list is the order in which \<^verbatim>\<open>os.listdir\<close> reports
  entries.
\<close>

datatype node = File nat | Dir nat

type_synonym fs = "(str list \<times> node) list"

text \<open>\<^verbatim>\<open>s.split(d)\<close>: always at least one piece.\<close>

fun split_on :: "'a \<Rightarrow> 'a list \<Rightarrow> 'a list list" where
  "split_on d [] = [[]]"
| "split_on d (c # cs) =
     (if c = d then [] # split_on d cs
      else (case split_on d cs of [] \<Rightarrow> [[c]] | p # ps \<Rightarrow> (c # p) # ps))"

definition resolve :: "str \<Rightarrow> str list" where
  "resolve p = filter (\<lambda>c. c \<noteq> [] \<and> c \<noteq> [46]) (split_on 47 p)"

definition stat :: "fs \<Rightarrow> str \<Rightarrow> node option" where
  "stat fsys p =
     (if p = [] then None
      else if resolve p = [] then Some (Dir 0)
      else map_of fsys (resolve p))"

definition path_exists :: "fs \<Rightarrow> str \<Rightarrow> bool" where
  "path_exists fsys p = (stat fsys p \<noteq> None)"

definition isfile :: "fs \<Rightarrow> str \<Rightarrow> bool" where
  "isfile fsys p = (case stat fsys p of Some (File n) \<Rightarrow> True | _ \<Rightarrow> False)"

definition isdir :: "fs \<Rightarrow> str \<Rightarrow> bool" where
  "isdir fsys p = (case stat fsys p of Some (Dir n) \<Rightarrow> True | _ \<Rightarrow> False)"

definition getsize :: "fs \<Rightarrow> str \<Rightarrow> py_exn + nat" where
  "getsize fsys p =
     (case stat fsys p of None \<Rightarrow> Inl OSError | Some (File n) \<Rightarrow> Inr n | Some (Dir n) \<Rightarrow> Inr n)"

text \<open>\<^verbatim>\<open>open(path, 'rb')\<close> succeeds on a regular file only.\<close>

definition open_rb :: "fs \<Rightarrow> str \<Rightarrow> py_exn + nat" where
  "open_rb fsys p =
     (case stat fsys p of Some (File n) \<Rightarrow> Inr n | _ \<Rightarrow> Inl OSError)"

definition listdir :: "fs \<Rightarrow> str \<Rightarrow> py_exn + str list" where
  "listdir fsys d =
     (if isdir fsys d
      then Inr (map (\<lambda>e. last (fst e))
                  (filter (\<lambda>e. fst e \<noteq> [] \<and> butlast (fst e) = resolve d) fsys))
      else Inl OSError)"

text \<open>\<^verbatim>\<open>os.path.join\<close>, \<^verbatim>\<open>os.path.basename\<close> and the extension of
  \<^verbatim>\<open>os.path.splitext\<close> (POSIX flavour).\<close>

definition path_join :: "str \<Rightarrow> str \<Rightarrow> str" where
  "path_join a b =
     (if b \<noteq> [] \<and> hd b = 47 then b
      else if a = [] \<or> last a = 47 then a @ b
      else a @ [47] @ b)"

definition basename :: "str \<Rightarrow> str" where
  "basename p = last (split_on 47 p)"

definition splitext_ext :: "str \<Rightarrow> str" where
  "splitext_ext p =
     (let r = rev (basename p);
          ext = takeWhile (\<lambda>c. c \<noteq> 46) r;
          rest = dropWhile (\<lambda>c. c \<noteq> 46) r
      in if rest = [] then []
         else if list_all (\<lambda>c. c = 46) (tl rest) then []
         else 46 # rev ext)"

section \<open>HTTP\<close>

text \<open>
  A response is its status code and its body decoded as JSON (\<open>None\<close> when the body is
  not JSON, in which case \<^verbatim>\<open>response.json()\<close> raises).
\<close>

record http_response =
  status_code :: int
  json_body :: "json option"

definition response_json :: "http_response \<Rightarrow> py_exn + json" where
  "response_json r = (case json_body r of None \<Rightarrow> Inl JSONDecodeError | Some j \<Rightarrow> Inr j)"

text \<open>A folder of the service, as \<^verbatim>\<open>canvasapi\<close> presents it.\<close>

record folder =
  f_id :: nat
  f_name :: str
  f_parent :: "nat option"
  f_owner :: nat

text \<open>What \<^verbatim>\<open>get_or_create_folder\<close> hands out: a folder id, or a folder object.\<close>

datatype folder_ref = FolderId nat | FolderObj folder

record ticket_payload =
  p_name :: str
  p_size :: nat
  p_content_type :: str
  p_as_user_id :: "nat option"

text \<open>The requests that the client sends with \<^verbatim>\<open>requests\<close>; the environment answers
  each with a response or with a raised exception.\<close>

datatype request =
    PostTicket folder_ref ticket_payload
  | PostUpload json json str
  | GetQuota "nat option"

type_synonym web = "request \<Rightarrow> py_exn + http_response"

section \<open>\<^verbatim>\<open>CanvasInteraction.upload_file\<close>\<close>

text \<open>
  Returns the value of the method (\<open>None\<close> for Python's \<^verbatim>\<open>None\<close>) and the requests it sent,
  in order. Every exception inside the body is caught and turned into \<^verbatim>\<open>None\<close>.
\<close>

definition ticket_request :: "folder_ref \<Rightarrow> str \<Rightarrow> nat \<Rightarrow> str \<Rightarrow> nat option \<Rightarrow> request" where
  "ticket_request folder_id file_name sz content_type user_id =
     PostTicket folder_id
       \<lparr> p_name = file_name, p_size = sz, p_content_type = content_type,
         p_as_user_id = (case user_id of None \<Rightarrow> None
                         | Some u \<Rightarrow> if u \<noteq> 0 then Some u else None) \<rparr>"

text \<open>Lines 132-145: the binary transfer, entered after a 2xx answer to the ticket request.\<close>

definition complete_upload ::
  "web \<Rightarrow> fs \<Rightarrow> str \<Rightarrow> str \<Rightarrow> request \<Rightarrow> http_response \<Rightarrow> int option \<times> request list" where
  "complete_upload www fsys file_name file_path ticket response =
     (case response_json response of
        Inl e \<Rightarrow> (None, [ticket])
      | Inr upload_data \<Rightarrow>
          (case subscript upload_data (py_str ''upload_url'') of
             Inl e \<Rightarrow> (None, [ticket])
           | Inr upload_url \<Rightarrow>
               (case subscript upload_data (py_str ''upload_params'') of
                  Inl e \<Rightarrow> (None, [ticket])
                | Inr upload_params \<Rightarrow>
                    (case open_rb fsys file_path of
                       Inl e \<Rightarrow> (None, [ticket])
                     | Inr content \<Rightarrow>
                         (case www (PostUpload upload_url upload_params file_name) of
                            Inl e \<Rightarrow>
                              (None, [ticket, PostUpload upload_url upload_params file_name])
                          | Inr response2 \<Rightarrow>
                              (Some (status_code response2),
                               [ticket, PostUpload upload_url upload_params file_name]))))))"

definition upload_file ::
  "web \<Rightarrow> fs \<Rightarrow> folder_ref \<Rightarrow> str \<Rightarrow> str \<Rightarrow> str \<Rightarrow> nat option \<Rightarrow> int option \<times> request list" where
  "upload_file www fsys folder_id file_name file_path content_type user_id =
     (if \<not> path_exists fsys file_path then (None, [])
      else (case getsize fsys file_path of
        Inl e \<Rightarrow> (None, [])
      | Inr sz \<Rightarrow>
          (case www (ticket_request folder_id file_name sz content_type user_id) of
             Inl e \<Rightarrow> (None, [ticket_request folder_id file_name sz content_type user_id])
           | Inr response \<Rightarrow>
               (if \<not> (200 \<le> status_code response \<and> status_code response < 300)
                then (Some (status_code response),
                      [ticket_request folder_id file_name sz content_type user_id])
                else complete_upload www fsys file_name file_path
                       (ticket_request folder_id file_name sz content_type user_id) response))))"

section \<open>Regular expressions of Python's \<^verbatim>\<open>re\<close>\<close>

text \<open>
  The patterns of this program are sequences of single-character tests with the greedy
  quantifiers \<^verbatim>\<open>*\<close> and \<^verbatim>\<open>+\<close>, group parentheses and \<^verbatim>\<open>$\<close>. \<open>rx\<close> is the backtracking
  matcher anchored at the start of its input: it tries the longest repetition first and
  gives back one character at a time, and it returns, for the first way that succeeds,
  the piece of input that each item consumed.
\<close>

datatype item =
    One "nat \<Rightarrow> bool"
  | Star "nat \<Rightarrow> bool"
  | Plus "nat \<Rightarrow> bool"
  | Eol
  | GOpen
  | GClose

fun rx :: "item list \<Rightarrow> str \<Rightarrow> str list option" where
  "rx [] s = Some []"
| "rx (One p # r) [] = None"
| "rx (One p # r) (c # cs) =
     (if p c then map_option (\<lambda>g. [c] # g) (rx r cs) else None)"
| "rx (Plus p # r) [] = None"
| "rx (Plus p # r) (c # cs) =
     (if p c
      then (case rx (Star p # r) cs of
              None \<Rightarrow> None
            | Some g \<Rightarrow> Some ((c # hd g) # tl g))
      else None)"
| "rx (Star p # r) [] = map_option (\<lambda>g. [] # g) (rx r [])"
| "rx (Star p # r) (c # cs) =
     (if p c
      then (case rx (Star p # r) cs of
              Some g \<Rightarrow> Some ((c # hd g) # tl g)
            | None \<Rightarrow> map_option (\<lambda>g. [] # g) (rx r (c # cs)))
      else map_option (\<lambda>g. [] # g) (rx r (c # cs)))"
| "rx (Eol # r) s =
     (if s = [] \<or> s = [10] then map_option (\<lambda>g. [] # g) (rx r s) else None)"
| "rx (GOpen # r) s = map_option (\<lambda>g. [] # g) (rx r s)"
| "rx (GClose # r) s = map_option (\<lambda>g. [] # g) (rx r s)"

text \<open>\<^verbatim>\<open>re.match\<close> tries the start of the string only; \<^verbatim>\<open>re.search\<close> tries every
  start position from the left and keeps the first that matches.\<close>

definition re_match :: "item list \<Rightarrow> str \<Rightarrow> str list option" where
  "re_match items s = rx items s"

fun re_search :: "item list \<Rightarrow> str \<Rightarrow> str list option" where
  "re_search items [] = rx items []"
| "re_search items (c # cs) =
     (case rx items (c # cs) of Some g \<Rightarrow> Some g | None \<Rightarrow> re_search items cs)"

text \<open>\<^verbatim>\<open>match.group(1)\<close>: what was consumed between the first opening parenthesis and
  the next closing one (the patterns that ask for it have no nested group).\<close>

fun is_gopen :: "item \<Rightarrow> bool" where
  "is_gopen GOpen = True"
| "is_gopen _ = False"

fun is_gclose :: "item \<Rightarrow> bool" where
  "is_gclose GClose = True"
| "is_gclose _ = False"

definition group1 :: "item list \<Rightarrow> str list \<Rightarrow> str" where
  "group1 items g =
     concat (map snd (takeWhile (\<lambda>e. \<not> is_gclose (fst e))
                        (tl (dropWhile (\<lambda>e. \<not> is_gopen (fst e)) (zip items g)))))"

text \<open>
  Character tests. \<^verbatim>\<open>.\<close> is every code point but the line feed. \<^verbatim>\<open>\w\<close> on a \<^verbatim>\<open>str\<close>
  pattern is the ASCII letters and digits, the underscore, and the alphanumeric code
  points beyond ASCII; the table of the latter is the parameter \<open>U\<close>.
\<close>

definition is_alnum :: "nat \<Rightarrow> bool" where
  "is_alnum c = ((97 \<le> c \<and> c \<le> 122) \<or> (65 \<le> c \<and> c \<le> 90) \<or> (48 \<le> c \<and> c \<le> 57))"

definition dot :: "nat \<Rightarrow> bool" where
  "dot c = (c \<noteq> 10)"

definition lit :: "nat \<Rightarrow> nat \<Rightarrow> bool" where
  "lit a c = (c = a)"

definition id_char :: "nat \<Rightarrow> bool" where
  "id_char c = (is_alnum c \<or> c = 40 \<or> c = 41 \<or> c = 45)"

definition word_char :: "(nat \<Rightarrow> bool) \<Rightarrow> nat \<Rightarrow> bool" where
  "word_char U c = (is_alnum c \<or> c = 95 \<or> (128 \<le> c \<and> U c))"

text \<open>A table for evaluating ASCII examples: no alphanumeric beyond ASCII.\<close>

definition ascii_only :: "nat \<Rightarrow> bool" where
  "ascii_only c = False"

section \<open>\<^verbatim>\<open>extract_unique_usernames_from_files\<close>\<close>

text \<open>The two patterns of lines 45 and 49:
  \<^verbatim>\<open>.*_[a-zA-Z0-9()-]+\.\w+$\<close> and \<^verbatim>\<open>_([a-zA-Z0-9()-]+)\.\w+$\<close>.\<close>

definition accept_pattern :: "(nat \<Rightarrow> bool) \<Rightarrow> item list" where
  "accept_pattern U = [Star dot, One (lit 95), Plus id_char, One (lit 46), Plus (word_char U), Eol]"

definition capture_pattern :: "(nat \<Rightarrow> bool) \<Rightarrow> item list" where
  "capture_pattern U =
     [One (lit 95), GOpen, Plus id_char, GClose, One (lit 46), Plus (word_char U), Eol]"

text \<open>The body of the loop over the files: the user name added to the set, or \<open>None\<close>
  when the iteration ends in \<^verbatim>\<open>continue\<close>.\<close>

definition username_of :: "(nat \<Rightarrow> bool) \<Rightarrow> str \<Rightarrow> str option" where
  "username_of U source_file =
     (if re_match (accept_pattern U) source_file = None then None
      else (case re_search (capture_pattern U) source_file of
              None \<Rightarrow> None
            | Some g \<Rightarrow> Some (group1 (capture_pattern U) g)))"

text \<open>The set of user names is kept as a list without repetition; the order in which
  Python lists a set is not determined and no property below depends on it.\<close>

definition add_username :: "(nat \<Rightarrow> bool) \<Rightarrow> str \<Rightarrow> str list \<Rightarrow> str list" where
  "add_username U source_file usernames_set =
     (case username_of U source_file of
        None \<Rightarrow> usernames_set
      | Some username \<Rightarrow> List.insert username usernames_set)"

definition extract_unique_usernames_from_files ::
  "(nat \<Rightarrow> bool) \<Rightarrow> fs \<Rightarrow> str \<Rightarrow> py_exn + str list" where
  "extract_unique_usernames_from_files U fsys semester_folder =
     (case listdir fsys semester_folder of
        Inl e \<Rightarrow> Inl e
      | Inr all_entries \<Rightarrow>
          Inr (fold (add_username U)
                 (filter (\<lambda>f. isfile fsys (path_join semester_folder f)) all_entries) []))"

text \<open>
  The file names that the two patterns accept, with the identifier they yield: the
  identifier is a non-empty run of ASCII letters, digits, hyphens and parentheses; the
  extension is a non-empty run of word characters, after which the name ends (a single
  final line feed apart, which \<^verbatim>\<open>$\<close> tolerates); what precedes the underscore is any
  text on one line.
\<close>

definition matches_name :: "(nat \<Rightarrow> bool) \<Rightarrow> str \<Rightarrow> str \<Rightarrow> bool" where
  "matches_name U f u =
     (\<exists>p ext nl. f = p @ [95] @ u @ [46] @ ext @ nl \<and> 10 \<notin> set p
        \<and> u \<noteq> [] \<and> list_all id_char u
        \<and> ext \<noteq> [] \<and> list_all (word_char U) ext
        \<and> (nl = [] \<or> nl = [10]))"

text \<open>
  The file-name pattern of the specification, \<^verbatim>\<open><anything>_<identifier>.<extension>\<close>,
  in its own words: only the identifier is restricted, to a non-empty run of ASCII
  letters, digits, hyphens and parentheses; the extension is any non-empty text.
\<close>

definition name_has_shape :: "str \<Rightarrow> str \<Rightarrow> bool" where
  "name_has_shape f u =
     (\<exists>p ext. f = p @ [95] @ u @ [46] @ ext
        \<and> u \<noteq> [] \<and> list_all id_char u \<and> ext \<noteq> [])"

text \<open>
  A reading of ``the identifier comes from the last underscore'': the run of identifier
  characters that follows the final underscore of the name.
\<close>

definition token_after_last_underscore :: "str \<Rightarrow> str" where
  "token_after_last_underscore f =
     takeWhile id_char (rev (takeWhile (\<lambda>c. c \<noteq> 95) (rev f)))"

text \<open>A directory with a backup file and a file whose name holds a line feed.\<close>

definition odd_names_fs :: fs where
  "odd_names_fs =
     [([py_str ''sem''], Dir 0),
      ([py_str ''sem'', py_str ''report_alice.pdf~''], File 10),
      ([py_str ''sem'', py_str ''a'' @ [10] @ py_str ''b_carol.pdf''], File 20)]"

text \<open>A staging directory used in the examples below.\<close>

definition example_fs :: fs where
  "example_fs =
     [([py_str ''sem''], Dir 0),
      ([py_str ''sem'', py_str ''report_alice.pdf''], File 10),
      ([py_str ''sem'', py_str ''report_bob.pdf''], File 20),
      ([py_str ''sem'', py_str ''summary_alice.pdf''], File 30),
      ([py_str ''sem'', py_str ''readme.txt''], File 5),
      ([py_str ''sem'', py_str ''old_carol.pdf''], Dir 0)]"

section \<open>\<^verbatim>\<open>CanvasInteraction.get_or_create_folder\<close>\<close>

text \<open>
  Modelled from the spec: the folder service of the LMS, reached through \<^verbatim>\<open>canvasapi\<close>,
  is not part of the repository. It is taken to be a deterministic store: the users it
  knows and the folders it holds, in creation order. Fetching a user or a folder that
  it does not hold raises; listing gives the child folders of a folder, or of the user's
  root, in creation order; a created folder gets a fresh positive id, keeps the name it
  was given and shows up in later listings of its parent. A user id that is neither an
  integer nor a user object (Python's \<^verbatim>\<open>None\<close>) is rejected by the library before any
  request is sent.
\<close>

text \<open>Modelled from the spec: the state of the folder service.\<close>

record lms =
  users :: "nat list"
  folders :: "folder list"

datatype canvas_call =
    GetUser "nat option"
  | GetFolder nat
  | ListUserFolders nat
  | ListFolders nat
  | CreateUserFolder nat str
  | CreateFolder nat str

fun is_create :: "canvas_call \<Rightarrow> bool" where
  "is_create (CreateUserFolder u n) = True"
| "is_create (CreateFolder i n) = True"
| "is_create _ = False"

text \<open>Modelled from the spec: \<^verbatim>\<open>canvas.get_user\<close> of the library, which is not in the repository.\<close>

definition canvas_get_user :: "lms \<Rightarrow> nat option \<Rightarrow> py_exn + nat" where
  "canvas_get_user l user_id =
     (case user_id of
        None \<Rightarrow> Inl TypeError
      | Some u \<Rightarrow> if u \<in> set (users l) then Inr u else Inl CanvasException)"

text \<open>Modelled from the spec: \<^verbatim>\<open>canvas.get_folder\<close> of the library, which is not in the repository.\<close>

definition canvas_get_folder :: "lms \<Rightarrow> nat \<Rightarrow> py_exn + folder" where
  "canvas_get_folder l i =
     (case find (\<lambda>f. f_id f = i) (folders l) of
        None \<Rightarrow> Inl CanvasException
      | Some f \<Rightarrow> Inr f)"

text \<open>Modelled from the spec: \<^verbatim>\<open>user.get_folders\<close>, the child folders of the user's root.\<close>

definition user_get_folders :: "lms \<Rightarrow> nat \<Rightarrow> folder list" where
  "user_get_folders l u = filter (\<lambda>f. f_parent f = None \<and> f_owner f = u) (folders l)"

text \<open>Modelled from the spec: \<^verbatim>\<open>folder.get_folders\<close>, the child folders of a folder.\<close>

definition folder_get_folders :: "lms \<Rightarrow> folder \<Rightarrow> folder list" where
  "folder_get_folders l parent = filter (\<lambda>f. f_parent f = Some (f_id parent)) (folders l)"

text \<open>Modelled from the spec: the id that the service gives to the next folder.\<close>

definition fresh_id :: "lms \<Rightarrow> nat" where
  "fresh_id l = Suc (fold max (map f_id (folders l)) 0)"

text \<open>Modelled from the spec: \<^verbatim>\<open>user.create_folder\<close>, a new folder in the user's root.\<close>

definition user_create_folder :: "lms \<Rightarrow> nat \<Rightarrow> str \<Rightarrow> folder \<times> lms" where
  "user_create_folder l u name =
     (\<lparr> f_id = fresh_id l, f_name = name, f_parent = None, f_owner = u \<rparr>,
      l \<lparr> folders := folders l @
            [\<lparr> f_id = fresh_id l, f_name = name, f_parent = None, f_owner = u \<rparr>] \<rparr>)"

text \<open>Modelled from the spec: \<^verbatim>\<open>folder.create_folder\<close>, a new folder below a folder.\<close>

definition folder_create_folder :: "lms \<Rightarrow> folder \<Rightarrow> str \<Rightarrow> folder \<times> lms" where
  "folder_create_folder l parent name =
     (\<lparr> f_id = fresh_id l, f_name = name, f_parent = Some (f_id parent),
        f_owner = f_owner parent \<rparr>,
      l \<lparr> folders := folders l @
            [\<lparr> f_id = fresh_id l, f_name = name, f_parent = Some (f_id parent),
               f_owner = f_owner parent \<rparr>] \<rparr>)"

text \<open>
  One round of the loop of lines 71-90 below a folder (\<^verbatim>\<open>current_folder_id\<close> is truthy)
  and at the user's root (it is \<^verbatim>\<open>None\<close> or zero). Each gives the folder found or
  created (or the exception raised), the store and the calls made.
\<close>

definition segment_below ::
  "lms \<Rightarrow> nat \<Rightarrow> str \<Rightarrow> (py_exn + folder) \<times> lms \<times> canvas_call list" where
  "segment_below l cur folder_name =
     (case canvas_get_folder l cur of
        Inl e \<Rightarrow> (Inl e, l, [GetFolder cur])
      | Inr parent \<Rightarrow>
          (case find (\<lambda>f. f_name f = folder_name) (folder_get_folders l parent) of
             Some found_folder \<Rightarrow> (Inr found_folder, l, [GetFolder cur, ListFolders cur])
           | None \<Rightarrow>
               (Inr (fst (folder_create_folder l parent folder_name)),
                snd (folder_create_folder l parent folder_name),
                [GetFolder cur, ListFolders cur, GetFolder cur, CreateFolder cur folder_name])))"

definition segment_at_root ::
  "lms \<Rightarrow> nat \<Rightarrow> str \<Rightarrow> (py_exn + folder) \<times> lms \<times> canvas_call list" where
  "segment_at_root l u folder_name =
     (case find (\<lambda>f. f_name f = folder_name) (user_get_folders l u) of
        Some found_folder \<Rightarrow> (Inr found_folder, l, [ListUserFolders u])
      | None \<Rightarrow>
          (Inr (fst (user_create_folder l u folder_name)),
           snd (user_create_folder l u folder_name),
           [ListUserFolders u, CreateUserFolder u folder_name]))"

definition truthy_id :: "nat option \<Rightarrow> bool" where
  "truthy_id i = (case i of None \<Rightarrow> False | Some n \<Rightarrow> n \<noteq> 0)"

definition segment ::
  "lms \<Rightarrow> nat \<Rightarrow> nat option \<Rightarrow> str \<Rightarrow> (py_exn + folder) \<times> lms \<times> canvas_call list" where
  "segment l u current_folder_id folder_name =
     (if truthy_id current_folder_id then segment_below l (the current_folder_id) folder_name
      else segment_at_root l u folder_name)"

text \<open>The loop over the path segments; an exception ends it, and what was created
  before stays created.\<close>

fun walk ::
  "lms \<Rightarrow> nat \<Rightarrow> str list \<Rightarrow> nat option \<Rightarrow> (py_exn + nat option) \<times> lms \<times> canvas_call list" where
  "walk l u [] current_folder_id = (Inr current_folder_id, l, [])"
| "walk l u (folder_name # rest) current_folder_id =
     (case segment l u current_folder_id folder_name of
        (Inl e, l', calls) \<Rightarrow> (Inl e, l', calls)
      | (Inr found_folder, l', calls) \<Rightarrow>
          (case walk l' u rest (Some (f_id found_folder)) of
             (r, l'', calls') \<Rightarrow> (r, l'', calls @ calls')))"

definition get_or_create_folder ::
  "lms \<Rightarrow> nat option \<Rightarrow> str \<Rightarrow> nat option \<Rightarrow> folder_ref option \<times> lms \<times> canvas_call list" where
  "get_or_create_folder l user_id folder_path folder_id =
     (if truthy_id folder_id
      then (case canvas_get_folder l (the folder_id) of
              Inl e \<Rightarrow> (None, l, [GetFolder (the folder_id)])
            | Inr f \<Rightarrow> (Some (FolderObj f), l, [GetFolder (the folder_id)]))
      else (case canvas_get_user l user_id of
              Inl e \<Rightarrow> (None, l, [GetUser user_id])
            | Inr user \<Rightarrow>
                (case walk l user (split_on 47 folder_path) None of
                   (Inl e, l', calls) \<Rightarrow> (None, l', GetUser user_id # calls)
                 | (Inr current_folder_id, l', calls) \<Rightarrow>
                     (map_option FolderId current_folder_id, l', GetUser user_id # calls))))"

definition example_lms :: lms where
  "example_lms =
     \<lparr> users = [7],
       folders = [\<lparr> f_id = 3, f_name = py_str ''reports'', f_parent = None, f_owner = 7 \<rparr>] \<rparr>"

text \<open>The store \<open>l'\<close> holds what \<open>l\<close> holds, and possibly folders created later.\<close>

definition grows :: "lms \<Rightarrow> lms \<Rightarrow> bool" where
  "grows l l' =
     (users l' = users l \<and> take (length (folders l)) (folders l') = folders l)"

definition known_id :: "lms \<Rightarrow> nat option \<Rightarrow> bool" where
  "known_id l current_folder_id =
     (truthy_id current_folder_id \<longrightarrow> (\<exists>f \<in> set (folders l). f_id f = the current_folder_id))"

section \<open>Python floats\<close>

text \<open>
  A finite Python float is the rational number it denotes. \<open>double_round\<close> rounds a
  rational to the nearest binary64 value, ties to even: 53 significant bits, the least
  exponent that of the subnormal numbers. A magnitude that rounds to \<open>2 ^ 1024\<close> or more
  is out of range: the true division of integers then raises \<^verbatim>\<open>OverflowError\<close>, and a
  float subtraction gives an infinity.
\<close>

definition round_half_even :: "rat \<Rightarrow> int" where
  "round_half_even x =
     (if x - of_int \<lfloor>x\<rfloor> < 1 / 2 then \<lfloor>x\<rfloor>
      else if 1 / 2 < x - of_int \<lfloor>x\<rfloor> then \<lfloor>x\<rfloor> + 1
      else if even \<lfloor>x\<rfloor> then \<lfloor>x\<rfloor> else \<lfloor>x\<rfloor> + 1)"

text \<open>For \<open>x > 0\<close>, the exponent \<open>k\<close> with \<open>2 ^ k \<le> x < 2 ^ (k + 1)\<close>.\<close>

definition ilog2 :: "rat \<Rightarrow> int" where
  "ilog2 x =
     (if 2 powi (bitlen (fst (quotient_of x)) - bitlen (snd (quotient_of x))) \<le> x
      then bitlen (fst (quotient_of x)) - bitlen (snd (quotient_of x))
      else bitlen (fst (quotient_of x)) - bitlen (snd (quotient_of x)) - 1)"

definition double_round :: "rat \<Rightarrow> rat" where
  "double_round x =
     (if x = 0 then 0
      else sgn x * of_int (round_half_even (\<bar>x\<bar> / 2 powi (max (ilog2 \<bar>x\<bar> - 52) (- 1074))))
             * 2 powi (max (ilog2 \<bar>x\<bar> - 52) (- 1074)))"

datatype pyfloat = Finite rat | PosInf | NegInf

text \<open>\<^verbatim>\<open>a / b\<close> on two \<^verbatim>\<open>int\<close>s: the correctly rounded quotient.\<close>

definition int_true_div :: "int \<Rightarrow> int \<Rightarrow> py_exn + rat" where
  "int_true_div a b =
     (if b = 0 then Inl ZeroDivisionError
      else if 2 ^ 1024 \<le> \<bar>double_round (of_int a / of_int b)\<bar> then Inl OverflowError
      else Inr (double_round (of_int a / of_int b)))"

text \<open>\<^verbatim>\<open>a - b\<close> on two finite floats.\<close>

definition float_sub :: "rat \<Rightarrow> rat \<Rightarrow> pyfloat" where
  "float_sub a b =
     (if 2 ^ 1024 \<le> double_round (a - b) then PosInf
      else if double_round (a - b) \<le> - (2 ^ 1024) then NegInf
      else Finite (double_round (a - b)))"

fun float_negative :: "pyfloat \<Rightarrow> bool" where
  "float_negative (Finite x) = (x < 0)"
| "float_negative PosInf = False"
| "float_negative NegInf = True"

section \<open>\<^verbatim>\<open>QuotaManager.get_remaining_space\<close>\<close>

text \<open>A decoded JSON value as an operand of \<^verbatim>\<open>/\<close>: an integer, or a boolean (which
  Python counts as 0 or 1); every other value raises \<^verbatim>\<open>TypeError\<close>.\<close>

fun as_number :: "json \<Rightarrow> py_exn + int" where
  "as_number (JInt i) = Inr i"
| "as_number (JBool b) = Inr (if b then 1 else 0)"
| "as_number _ = Inl TypeError"

text \<open>Lines 172-175, once both fields have been read.\<close>

definition remaining_mb :: "json \<Rightarrow> json \<Rightarrow> py_exn + pyfloat" where
  "remaining_mb quota_bytes used_storage_bytes =
     (case as_number quota_bytes of
        Inl e \<Rightarrow> Inl e
      | Inr q \<Rightarrow>
          (case int_true_div q (1024 * 1024) of
             Inl e \<Rightarrow> Inl e
           | Inr total_quota_mb \<Rightarrow>
               (case as_number used_storage_bytes of
                  Inl e \<Rightarrow> Inl e
                | Inr u \<Rightarrow>
                    (case int_true_div u (1024 * 1024) of
                       Inl e \<Rightarrow> Inl e
                     | Inr used_storage_mb \<Rightarrow>
                         Inr (float_sub total_quota_mb used_storage_mb)))))"

text \<open>Lines 168-182 on the response received; only \<^verbatim>\<open>KeyError\<close> is caught.\<close>

definition remaining_of_response :: "http_response \<Rightarrow> py_exn + pyfloat option" where
  "remaining_of_response response =
     (if 200 \<le> status_code response \<and> status_code response < 300
      then (case response_json response of
              Inl e \<Rightarrow> Inl e
            | Inr body \<Rightarrow>
                (case subscript body (py_str ''quota'') of
                   Inl e \<Rightarrow> (if e = KeyError then Inr None else Inl e)
                 | Inr quota_bytes \<Rightarrow>
                     (case subscript body (py_str ''quota_used'') of
                        Inl e \<Rightarrow> (if e = KeyError then Inr None else Inl e)
                      | Inr used_storage_bytes \<Rightarrow>
                          (case remaining_mb quota_bytes used_storage_bytes of
                             Inl e \<Rightarrow> Inl e
                           | Inr remaining_storage_mb \<Rightarrow> Inr (Some remaining_storage_mb)))))
      else Inr None)"

text \<open>The method: the request of line 167 may itself raise.\<close>

definition get_remaining_space :: "web \<Rightarrow> nat option \<Rightarrow> py_exn + pyfloat option" where
  "get_remaining_space www user_id =
     (case www (GetQuota user_id) of
        Inl e \<Rightarrow> Inl e
      | Inr response \<Rightarrow> remaining_of_response response)"

text \<open>Quota answers used in the examples: a 2xx answer with the given byte counts, and a
  2xx answer whose body is a JSON array.\<close>

definition quota_body :: "int \<Rightarrow> int \<Rightarrow> json" where
  "quota_body q u = JObj [(py_str ''quota'', JInt q), (py_str ''quota_used'', JInt u)]"

definition quota_web :: "int \<Rightarrow> int \<Rightarrow> web" where
  "quota_web q u request = Inr \<lparr> status_code = 200, json_body = Some (quota_body q u) \<rparr>"

definition array_web :: web where
  "array_web request = Inr \<lparr> status_code = 200, json_body = Some (JArr []) \<rparr>"

section \<open>Directory creation and moving\<close>

text \<open>\<^verbatim>\<open>os.makedirs(path, exist_ok=True)\<close>: the missing directories along the path are
  created; a regular file on the way raises.\<close>

definition prefixes_of :: "'a list \<Rightarrow> 'a list list" where
  "prefixes_of cs = map (\<lambda>n. take n cs) [1..<Suc (length cs)]"

definition is_file_node :: "node option \<Rightarrow> bool" where
  "is_file_node n = (case n of Some (File sz) \<Rightarrow> True | _ \<Rightarrow> False)"

definition is_dir_node :: "node option \<Rightarrow> bool" where
  "is_dir_node n = (case n of Some (Dir sz) \<Rightarrow> True | _ \<Rightarrow> False)"

definition makedirs :: "fs \<Rightarrow> str \<Rightarrow> py_exn + fs" where
  "makedirs fsys p =
     (if p = [] then Inl OSError
      else if list_ex (\<lambda>pre. is_file_node (map_of fsys pre)) (prefixes_of (resolve p))
      then Inl OSError
      else Inr (fsys @ map (\<lambda>pre. (pre, Dir 0))
                        (filter (\<lambda>pre. map_of fsys pre = None) (prefixes_of (resolve p)))))"

text \<open>
  \<^verbatim>\<open>shutil.move(src, dst)\<close>: into \<open>dst\<close> when that is a directory (an entry of the same
  name there raises), otherwise onto \<open>dst\<close> by \<^verbatim>\<open>os.rename\<close>, which replaces a regular file
  and needs the source and the destination's directory to exist.
\<close>

definition rename_tree :: "fs \<Rightarrow> str list \<Rightarrow> str list \<Rightarrow> fs" where
  "rename_tree fsys s d =
     (if s = d then fsys
      else filter (\<lambda>e. take (length s) (fst e) \<noteq> s \<and> fst e \<noteq> d) fsys
           @ map (\<lambda>e. (d @ drop (length s) (fst e), snd e))
               (filter (\<lambda>e. take (length s) (fst e) = s) fsys))"

definition move_target :: "fs \<Rightarrow> str \<Rightarrow> str \<Rightarrow> str" where
  "move_target fsys src dst =
     (if isdir fsys dst
      then path_join dst (basename (rev (dropWhile (\<lambda>c. c = 47) (rev src))))
      else dst)"

definition move :: "fs \<Rightarrow> str \<Rightarrow> str \<Rightarrow> py_exn + fs" where
  "move fsys src dst =
     (if isdir fsys dst \<and> path_exists fsys (move_target fsys src dst) then Inl OSError
      else if stat fsys src = None then Inl OSError
      else if move_target fsys src dst = [] then Inl OSError
      else if butlast (resolve (move_target fsys src dst)) \<noteq> []
              \<and> \<not> is_dir_node (map_of fsys (butlast (resolve (move_target fsys src dst))))
      then Inl OSError
      else if isdir fsys src \<and> path_exists fsys (move_target fsys src dst) then Inl OSError
      else Inr (rename_tree fsys (resolve src) (resolve (move_target fsys src dst))))"

section \<open>\<^verbatim>\<open>upload_user_files_to_canvas_based_on_quota\<close>\<close>

text \<open>
  The pattern of line 104 is the user name, taken as pattern text, followed by
  \<^verbatim>\<open>.pdf\<close>. In pattern text a parenthesis opens or closes a group and \<^verbatim>\<open>.\<close> is any
  character but the line feed; letters, digits, the hyphen and the other plain
  characters stand for themselves. Unbalanced parentheses make \<^verbatim>\<open>re.search\<close> raise
  \<^verbatim>\<open>re.error\<close>. The remaining special characters (\<^verbatim>\<open>\ [ { * + ? ^ $ |\<close>) cannot occur
  in a name that the extractor yields and are not modelled.
\<close>

definition is_special :: "nat \<Rightarrow> bool" where
  "is_special c = (c \<in> {92, 91, 123, 42, 43, 63, 94, 36, 124})"

fun compile_chars :: "str \<Rightarrow> nat \<Rightarrow> py_exn + item list" where
  "compile_chars [] depth = (if depth = 0 then Inr [] else Inl ReError)"
| "compile_chars (c # cs) depth =
     (if c = 40 then map_sum id (\<lambda>r. GOpen # r) (compile_chars cs (Suc depth))
      else if c = 41
      then (if depth = 0 then Inl ReError
            else map_sum id (\<lambda>r. GClose # r) (compile_chars cs (depth - 1)))
      else if c = 46 then map_sum id (\<lambda>r. One dot # r) (compile_chars cs depth)
      else if is_special c then Inl PatternNotModelled
      else map_sum id (\<lambda>r. One (lit c) # r) (compile_chars cs depth))"

definition user_pattern :: "str \<Rightarrow> py_exn + item list" where
  "user_pattern user_name = compile_chars (user_name @ py_str ''.pdf'') 0"

text \<open>\<^verbatim>\<open>re.search(rf"{user_name}.pdf", file)\<close> as a condition.\<close>

definition file_selected :: "str \<Rightarrow> str \<Rightarrow> py_exn + bool" where
  "file_selected user_name file =
     (case user_pattern user_name of
        Inl e \<Rightarrow> Inl e
      | Inr items \<Rightarrow> Inr (re_search items file \<noteq> None))"

text \<open>The list comprehension of lines 101-105 over the directory listing.\<close>

fun select_files :: "fs \<Rightarrow> str \<Rightarrow> str \<Rightarrow> str list \<Rightarrow> py_exn + (str \<times> rat) list" where
  "select_files fsys semester_folder user_name [] = Inr []"
| "select_files fsys semester_folder user_name (file # rest) =
     (case file_selected user_name file of
        Inl e \<Rightarrow> Inl e
      | Inr selected \<Rightarrow>
          if \<not> selected then select_files fsys semester_folder user_name rest
          else (case getsize fsys (path_join semester_folder file) of
                  Inl e \<Rightarrow> Inl e
                | Inr sz \<Rightarrow>
                    (case int_true_div (int sz) (1024 * 1024) of
                       Inl e \<Rightarrow> Inl e
                     | Inr mb \<Rightarrow>
                         map_sum id (\<lambda>r. (path_join semester_folder file, mb) # r)
                           (select_files fsys semester_folder user_name rest))))"

text \<open>A reading of ``the name contains the identifier followed by the \<^verbatim>\<open>.pdf\<close>
  suffix'': the name ends with the identifier and \<^verbatim>\<open>.pdf\<close>.\<close>

definition has_user_pdf_suffix :: "str \<Rightarrow> str \<Rightarrow> bool" where
  "has_user_pdf_suffix user_name file =
     (length (user_name @ py_str ''.pdf'') \<le> length file
      \<and> drop (length file - length (user_name @ py_str ''.pdf'')) file
          = user_name @ py_str ''.pdf'')"

text \<open>
  The configuration constants the dispatcher reads, and whether
  \<^verbatim>\<open>float(TOTAL_QUOTA_MB)\<close> in the constructor of \<^verbatim>\<open>QuotaManager\<close> succeeds.
\<close>

record config =
  eval_reports_path :: str
  user_semester_folder_path :: str
  exceeded_storage_dir_path :: str
  total_quota_is_number :: bool

text \<open>
  The \<^verbatim>\<open>canvas_client\<close> argument: its three methods and the answer to the quota request,
  each over a state \<open>'w\<close> of the world outside (the LMS), which a call may change. A
  method may return or raise.
\<close>

record 'w client =
  c_get_user_id :: "'w \<Rightarrow> str \<Rightarrow> (py_exn + nat option) \<times> 'w"
  c_get_or_create_folder :: "'w \<Rightarrow> nat option \<Rightarrow> str \<Rightarrow> (py_exn + folder_ref option) \<times> 'w"
  c_upload_file ::
    "'w \<Rightarrow> fs \<Rightarrow> folder_ref \<Rightarrow> str \<Rightarrow> str \<Rightarrow> str \<Rightarrow> nat option \<Rightarrow> (py_exn + int option) \<times> 'w"
  c_quota_get :: "'w \<Rightarrow> nat option \<Rightarrow> (py_exn + http_response) \<times> 'w"

text \<open>What the dispatcher does that can be observed: its calls and its log lines.\<close>

datatype log_line =
    NoSubfolder "nat option"
  | UploadFailed str str
  | QuotaUnavailable str
  | Moved str str
  | ProcessingError py_exn

datatype event =
    CallGetUserId str
  | CallGetOrCreateFolder "nat option" str
  | CallUploadFile folder_ref str str str "nat option"
  | CallQuota "nat option"
  | Log log_line

record 'w dstate =
  st_fs :: fs
  st_world :: 'w
  st_trace :: "event list"

definition emit :: "event list \<Rightarrow> 'w dstate \<Rightarrow> 'w dstate" where
  "emit evs st = st \<lparr> st_trace := st_trace st @ evs \<rparr>"

text \<open>Truth value of \<^verbatim>\<open>sub_folder_id\<close> (line 95).\<close>

definition folder_truthy :: "folder_ref option \<Rightarrow> bool" where
  "folder_truthy r =
     (case r of None \<Rightarrow> False | Some (FolderId n) \<Rightarrow> n \<noteq> 0 | Some (FolderObj f) \<Rightarrow> True)"

text \<open>Lines 129-133: the directory of the recipient in the holding area, and the move.
  The result is the file system and the exception raised, if any.\<close>

definition quarantine_dir :: "config \<Rightarrow> str \<Rightarrow> str" where
  "quarantine_dir cfg user_name =
     path_join (exceeded_storage_dir_path cfg) (py_str ''file_storage_exceeded_'' @ user_name)"

definition quarantine_path :: "config \<Rightarrow> str \<Rightarrow> str \<Rightarrow> str" where
  "quarantine_path cfg user_name file = path_join (quarantine_dir cfg user_name) (basename file)"

definition relocate :: "config \<Rightarrow> str \<Rightarrow> str \<Rightarrow> fs \<Rightarrow> fs \<times> py_exn option" where
  "relocate cfg user_name file fsys =
     (case makedirs fsys (quarantine_dir cfg user_name) of
        Inl e \<Rightarrow> (fsys, Some e)
      | Inr fsys1 \<Rightarrow>
          (case move fsys1 file (quarantine_path cfg user_name file) of
             Inl e \<Rightarrow> (fsys1, Some e)
           | Inr fsys2 \<Rightarrow> (fsys2, None)))"

text \<open>Lines 124-125: constructing the \<^verbatim>\<open>QuotaManager\<close> and asking for the remaining
  space. The outcome is a raised exception or the value returned.\<close>

definition quota_query ::
  "config \<Rightarrow> 'w client \<Rightarrow> 'w \<Rightarrow> nat option \<Rightarrow> (py_exn + pyfloat option) \<times> 'w \<times> event list" where
  "quota_query cfg c w user_id =
     (if \<not> total_quota_is_number cfg then (Inl ValueError, w, [])
      else (case c_quota_get c w user_id of
              (Inl e, w') \<Rightarrow> (Inl e, w', [CallQuota user_id])
            | (Inr response, w') \<Rightarrow> (remaining_of_response response, w', [CallQuota user_id])))"

text \<open>Lines 127-137, given the outcome of the quota query: the file system afterwards
  and the log lines written.\<close>

definition after_quota ::
  "config \<Rightarrow> str \<Rightarrow> str \<Rightarrow> py_exn + pyfloat option \<Rightarrow> fs \<Rightarrow> fs \<times> event list" where
  "after_quota cfg user_name file outcome fsys =
     (case outcome of
        Inl e \<Rightarrow> (fsys, [Log (QuotaUnavailable user_name)])
      | Inr remaining_space_mb \<Rightarrow>
          (case relocate cfg user_name file fsys of
             (fsys', Some e) \<Rightarrow>
               (fsys',
                (if remaining_space_mb = None \<or> float_negative (the remaining_space_mb)
                 then [Log (QuotaUnavailable user_name)] else [])
                @ [Log (QuotaUnavailable user_name)])
           | (fsys', None) \<Rightarrow>
               (fsys',
                (if remaining_space_mb = None \<or> float_negative (the remaining_space_mb)
                 then [Log (QuotaUnavailable user_name)] else [])
                @ [Log (Moved file (quarantine_path cfg user_name file))])))"

definition content_type_of :: "str \<Rightarrow> str" where
  "content_type_of file =
     (if splitext_ext file = py_str ''.pdf'' then py_str ''application/pdf''
      else py_str ''application/octet-stream'')"

text \<open>
  Lines 108-137 for one file. The second component is the exception that leaves the
  loop, if any: comparing \<^verbatim>\<open>None\<close> with 200 raises \<^verbatim>\<open>TypeError\<close>.
\<close>

definition upload_one ::
  "config \<Rightarrow> 'w client \<Rightarrow> str \<Rightarrow> nat option \<Rightarrow> folder_ref \<Rightarrow> str \<Rightarrow> 'w dstate
     \<Rightarrow> 'w dstate \<times> py_exn option" where
  "upload_one cfg c user_name user_id sub_folder_id file st =
     (case c_upload_file c (st_world st) (st_fs st) sub_folder_id (basename file) file
             (content_type_of file) user_id of
        (r, w1) \<Rightarrow>
          (case r of
             Inl e \<Rightarrow>
               (emit [CallUploadFile sub_folder_id (basename file) file (content_type_of file)
                        user_id] (st \<lparr> st_world := w1 \<rparr>), Some e)
           | Inr None \<Rightarrow>
               (emit [CallUploadFile sub_folder_id (basename file) file (content_type_of file)
                        user_id] (st \<lparr> st_world := w1 \<rparr>), Some TypeError)
           | Inr (Some response_code) \<Rightarrow>
               if 200 \<le> response_code \<and> response_code < 300
               then (emit [CallUploadFile sub_folder_id (basename file) file
                             (content_type_of file) user_id] (st \<lparr> st_world := w1 \<rparr>), None)
               else (case quota_query cfg c w1 user_id of
                       (outcome, w2, calls) \<Rightarrow>
                         (emit ([CallUploadFile sub_folder_id (basename file) file
                                   (content_type_of file) user_id,
                                 Log (UploadFailed (basename file) user_name)]
                                @ calls
                                @ snd (after_quota cfg user_name file outcome (st_fs st)))
                            (st \<lparr> st_fs := fst (after_quota cfg user_name file outcome (st_fs st)),
                                  st_world := w2 \<rparr>),
                          None))))"

fun upload_files ::
  "config \<Rightarrow> 'w client \<Rightarrow> str \<Rightarrow> nat option \<Rightarrow> folder_ref \<Rightarrow> str list \<Rightarrow> 'w dstate
     \<Rightarrow> 'w dstate \<times> py_exn option" where
  "upload_files cfg c user_name user_id sub_folder_id [] st = (st, None)"
| "upload_files cfg c user_name user_id sub_folder_id (file # rest) st =
     (case upload_one cfg c user_name user_id sub_folder_id file st of
        (st', Some e) \<Rightarrow> (st', Some e)
      | (st', None) \<Rightarrow> upload_files cfg c user_name user_id sub_folder_id rest st')"

definition the_folder :: "folder_ref option \<Rightarrow> folder_ref" where
  "the_folder r = (case r of Some f \<Rightarrow> f | None \<Rightarrow> FolderId 0)"

text \<open>Lines 101-137 for one recipient, once the folder is there.\<close>

definition upload_for_user ::
  "config \<Rightarrow> 'w client \<Rightarrow> str \<Rightarrow> str \<Rightarrow> nat option \<Rightarrow> folder_ref \<Rightarrow> 'w dstate
     \<Rightarrow> 'w dstate \<times> py_exn option" where
  "upload_for_user cfg c semester_folder user_name user_id sub_folder_id st =
     (case listdir (st_fs st) semester_folder of
        Inl e \<Rightarrow> (st, Some e)
      | Inr entries \<Rightarrow>
          (case select_files (st_fs st) semester_folder user_name entries of
             Inl e \<Rightarrow> (st, Some e)
           | Inr user_files_with_sizes \<Rightarrow>
               upload_files cfg c user_name user_id sub_folder_id
                 (map fst user_files_with_sizes) st))"

text \<open>Lines 89-137 for one recipient.\<close>

definition process_user ::
  "config \<Rightarrow> 'w client \<Rightarrow> str \<Rightarrow> str \<Rightarrow> 'w dstate \<Rightarrow> 'w dstate \<times> py_exn option" where
  "process_user cfg c semester_folder user_name st =
     (case c_get_user_id c (st_world st) user_name of
        (Inl e, w1) \<Rightarrow> (emit [CallGetUserId user_name] (st \<lparr> st_world := w1 \<rparr>), Some e)
      | (Inr user_id, w1) \<Rightarrow>
          (case c_get_or_create_folder c w1 user_id
                  (eval_reports_path cfg @ [47] @ user_semester_folder_path cfg) of
             (Inl e, w2) \<Rightarrow>
               (emit [CallGetUserId user_name,
                      CallGetOrCreateFolder user_id
                        (eval_reports_path cfg @ [47] @ user_semester_folder_path cfg)]
                  (st \<lparr> st_world := w2 \<rparr>), Some e)
           | (Inr sub_folder_id, w2) \<Rightarrow>
               if \<not> folder_truthy sub_folder_id
               then (emit [CallGetUserId user_name,
                           CallGetOrCreateFolder user_id
                             (eval_reports_path cfg @ [47] @ user_semester_folder_path cfg),
                           Log (NoSubfolder user_id)]
                       (st \<lparr> st_world := w2 \<rparr>), None)
               else upload_for_user cfg c semester_folder user_name user_id
                      (the_folder sub_folder_id)
                      (emit [CallGetUserId user_name,
                             CallGetOrCreateFolder user_id
                               (eval_reports_path cfg @ [47] @ user_semester_folder_path cfg)]
                         (st \<lparr> st_world := w2 \<rparr>))))"

fun process_users ::
  "config \<Rightarrow> 'w client \<Rightarrow> str \<Rightarrow> str list \<Rightarrow> 'w dstate \<Rightarrow> 'w dstate \<times> py_exn option" where
  "process_users cfg c semester_folder [] st = (st, None)"
| "process_users cfg c semester_folder (user_name # rest) st =
     (case process_user cfg c semester_folder user_name st of
        (st', Some e) \<Rightarrow> (st', Some e)
      | (st', None) \<Rightarrow> process_users cfg c semester_folder rest st')"

text \<open>The function: the outer handler of line 139 logs the exception that ended the
  loop, and the function returns.\<close>

definition upload_user_files_to_canvas_based_on_quota ::
  "config \<Rightarrow> 'w client \<Rightarrow> str \<Rightarrow> str list \<Rightarrow> 'w dstate \<Rightarrow> 'w dstate" where
  "upload_user_files_to_canvas_based_on_quota cfg c semester_folder usernames st =
     (case process_users cfg c semester_folder usernames st of
        (st', None) \<Rightarrow> st'
      | (st', Some e) \<Rightarrow> emit [Log (ProcessingError e)] st')"

text \<open>
  The client of the program, \<^verbatim>\<open>CanvasInteraction\<close>, over the folder store: folder
  resolution and upload are the methods modelled above; the outcome of \<^verbatim>\<open>get_user_id\<close>,
  which no property below looks into, is given by \<open>lookup\<close>, and the answers to the
  requests by \<open>www\<close>.
\<close>

definition canvas_interaction :: "(str \<Rightarrow> py_exn + nat option) \<Rightarrow> web \<Rightarrow> lms client" where
  "canvas_interaction lookup www =
     \<lparr> c_get_user_id = (\<lambda>w user_name. (lookup user_name, w)),
       c_get_or_create_folder =
         (\<lambda>w user_id folder_path.
            (Inr (fst (get_or_create_folder w user_id folder_path None)),
             fst (snd (get_or_create_folder w user_id folder_path None)))),
       c_upload_file =
         (\<lambda>w fsys folder_id file_name file_path content_type user_id.
            (Inr (fst (upload_file www fsys folder_id file_name file_path content_type user_id)),
             w)),
       c_quota_get = (\<lambda>w user_id. (www (GetQuota user_id), w)) \<rparr>"

section \<open>Scenarios\<close>

text \<open>A configuration, a staging directory with one report for each of two recipients,
  a user lookup that knows \<^verbatim>\<open>alice\<close> only, and three behaviours of the network: every
  request succeeds; the upload ticket is refused with 507 while the quota request
  succeeds; every request fails in transport.\<close>

definition example_cfg :: config where
  "example_cfg =
     \<lparr> eval_reports_path = py_str ''reports'', user_semester_folder_path = py_str ''2024'',
       exceeded_storage_dir_path = py_str ''held'', total_quota_is_number = True \<rparr>"

definition staging_fs :: fs where
  "staging_fs =
     [([py_str ''sem''], Dir 0),
      ([py_str ''sem'', py_str ''report_alice.pdf''], File 10),
      ([py_str ''sem'', py_str ''report_bob.pdf''], File 20)]"

definition example_lookup :: "str \<Rightarrow> py_exn + nat option" where
  "example_lookup user_name = Inr (if user_name = py_str ''alice'' then Some 7 else None)"

definition ok_web :: web where
  "ok_web request =
     Inr \<lparr> status_code = 200,
           json_body = Some (JObj [(py_str ''upload_url'', JStr (py_str ''u'')),
                                   (py_str ''upload_params'', JObj [])]) \<rparr>"

fun full_web :: web where
  "full_web (PostTicket f p) = Inr \<lparr> status_code = 507, json_body = None \<rparr>"
| "full_web (PostUpload u p n) = Inr \<lparr> status_code = 200, json_body = None \<rparr>"
| "full_web (GetQuota u) =
     Inr \<lparr> status_code = 200, json_body = Some (quota_body 52428800 52428800) \<rparr>"

definition down_web :: web where
  "down_web request = Inl RequestException"

definition start :: "fs \<Rightarrow> lms dstate" where
  "start fsys = \<lparr> st_fs = fsys, st_world = example_lms, st_trace = [] \<rparr>"

text \<open>The upload ticket is refused with 507 and the quota request fails in transport.\<close>

fun quota_down_web :: web where
  "quota_down_web (PostTicket f p) = Inr \<lparr> status_code = 507, json_body = None \<rparr>"
| "quota_down_web (PostUpload u p n) = Inr \<lparr> status_code = 200, json_body = None \<rparr>"
| "quota_down_web (GetQuota u) = Inl RequestException"

text \<open>The state of the folder store once the path \<^verbatim>\<open>reports/2024\<close> is resolved.\<close>

definition resolved_lms :: lms where
  "resolved_lms =
     \<lparr> users = [7],
       folders = [\<lparr> f_id = 3, f_name = py_str ''reports'', f_parent = None, f_owner = 7 \<rparr>,
                  \<lparr> f_id = 4, f_name = py_str ''2024'', f_parent = Some 3, f_owner = 7 \<rparr>] \<rparr>"

section \<open>Properties of the matcher\<close>

text \<open>What a successful match of one item says about the input, and the converse: a
  split of the input that fits every item is found by the backtracking search.\<close>

lemma rx_One_elim:
  "rx (One p # r) s = Some g \<Longrightarrow> \<exists>c cs g'. s = c # cs \<and> p c \<and> rx r cs = Some g' \<and> g = [c] # g'"
  by (cases s) (auto split: if_splits)

lemma rx_Star_elim:
  "rx (Star p # r) s = Some g \<Longrightarrow>
     \<exists>x rest g'. s = x @ rest \<and> list_all p x \<and> rx r rest = Some g' \<and> g = x # g'"
proof (induction s arbitrary: g)
  case Nil
  then show ?case by auto
next
  case (Cons c cs)
  show ?case
  proof (cases "p c \<and> rx (Star p # r) cs \<noteq> None")
    case True
    then obtain g0 where g0: "rx (Star p # r) cs = Some g0" by auto
    from Cons.IH [OF g0] obtain x rest g' where
      *: "cs = x @ rest" "list_all p x" "rx r rest = Some g'" "g0 = x # g'" by blast
    from Cons.prems True g0 have "g = (c # hd g0) # tl g0" by simp
    with * True have "c # cs = (c # x) @ rest \<and> list_all p (c # x) \<and> rx r rest = Some g' \<and> g = (c # x) # g'"
      by simp
    then show ?thesis by blast
  next
    case False
    with Cons.prems obtain g' where "rx r (c # cs) = Some g'" "g = [] # g'"
      by (auto split: if_splits option.splits)
    then have "c # cs = [] @ (c # cs) \<and> list_all p [] \<and> rx r (c # cs) = Some g' \<and> g = [] # g'"
      by simp
    then show ?thesis by blast
  qed
qed

lemma rx_Plus_elim:
  assumes "rx (Plus p # r) s = Some g"
  shows "\<exists>x rest g'. s = x @ rest \<and> x \<noteq> [] \<and> list_all p x \<and> rx r rest = Some g' \<and> g = x # g'"
proof (cases s)
  case Nil
  with assms show ?thesis by simp
next
  case (Cons c cs)
  with assms obtain g0 where pc: "p c" and g0: "rx (Star p # r) cs = Some g0"
    and g: "g = (c # hd g0) # tl g0"
    by (auto split: if_splits option.splits)
  from rx_Star_elim [OF g0] obtain x rest g' where
    *: "cs = x @ rest" "list_all p x" "rx r rest = Some g'" "g0 = x # g'" by blast
  with Cons pc g have "s = (c # x) @ rest \<and> c # x \<noteq> [] \<and> list_all p (c # x) \<and> rx r rest = Some g' \<and> g = (c # x) # g'"
    by simp
  then show ?thesis by blast
qed

lemma rx_Star_intro:
  "list_all p x \<Longrightarrow> rx r rest \<noteq> None \<Longrightarrow> rx (Star p # r) (x @ rest) \<noteq> None"
proof (induction x)
  case Nil
  then show ?case by (cases rest) (auto split: option.splits)
next
  case (Cons c x)
  then show ?case by (auto split: option.splits)
qed

lemma rx_Plus_intro:
  "x \<noteq> [] \<Longrightarrow> list_all p x \<Longrightarrow> rx r rest \<noteq> None \<Longrightarrow> rx (Plus p # r) (x @ rest) \<noteq> None"
  using rx_Star_intro [of p "tl x" r rest] by (cases x) (auto split: option.splits)

lemma rx_One_intro:
  "p c \<Longrightarrow> rx r rest \<noteq> None \<Longrightarrow> rx (One p # r) (c # rest) \<noteq> None"
  by auto

lemma re_search_elim:
  "re_search items s = Some g \<Longrightarrow> \<exists>pre suf. s = pre @ suf \<and> rx items suf = Some g"
proof (induction s)
  case Nil
  then show ?case by simp
next
  case (Cons c cs)
  show ?case
  proof (cases "rx items (c # cs)")
    case None
    with Cons.prems have "re_search items cs = Some g" by simp
    from Cons.IH [OF this] obtain pre suf where "cs = pre @ suf" "rx items suf = Some g" by blast
    then have "c # cs = (c # pre) @ suf \<and> rx items suf = Some g" by simp
    then show ?thesis by blast
  next
    case (Some a)
    with Cons.prems have "c # cs = [] @ (c # cs) \<and> rx items (c # cs) = Some g" by simp
    then show ?thesis by blast
  qed
qed

lemma re_search_intro:
  "rx items suf \<noteq> None \<Longrightarrow> re_search items (pre @ suf) \<noteq> None"
proof (induction pre)
  case Nil
  then show ?case by (cases suf) (auto split: option.splits)
next
  case (Cons c pre)
  then show ?case by (auto split: option.splits)
qed

lemma takeWhile_until:
  "a \<notin> set ws \<Longrightarrow> takeWhile (\<lambda>c. c \<noteq> a) (ws @ a # zs) = ws"
  by (induction ws) auto

lemma split_unique:
  assumes "xs1 @ a # ys1 = xs2 @ a # ys2" "a \<notin> set ys1" "a \<notin> set ys2"
  shows "xs1 = xs2 \<and> ys1 = ys2"
proof -
  have "rev ys1 = takeWhile (\<lambda>c. c \<noteq> a) (rev ys1 @ a # rev xs1)"
    using assms(2) by (simp add: takeWhile_until)
  also have "\<dots> = takeWhile (\<lambda>c. c \<noteq> a) (rev (xs1 @ a # ys1))" by simp
  also have "\<dots> = takeWhile (\<lambda>c. c \<noteq> a) (rev (xs2 @ a # ys2))" by (simp only: assms(1))
  also have "\<dots> = takeWhile (\<lambda>c. c \<noteq> a) (rev ys2 @ a # rev xs2)" by simp
  also have "\<dots> = rev ys2"
    using assms(3) by (simp add: takeWhile_until)
  finally have "ys1 = ys2" by simp
  with assms(1) show ?thesis by simp
qed

lemma rx_GOpen_elim: "rx (GOpen # r) s = Some g \<Longrightarrow> \<exists>g'. rx r s = Some g' \<and> g = [] # g'"
  by auto

lemma rx_GClose_elim: "rx (GClose # r) s = Some g \<Longrightarrow> \<exists>g'. rx r s = Some g' \<and> g = [] # g'"
  by auto

lemma rx_Eol_end: "rx [Eol] s = Some g \<longleftrightarrow> (s = [] \<or> s = [10]) \<and> g = [[]]"
  by auto

lemma not_id_char_95: "\<not> id_char 95" and not_id_char_46: "\<not> id_char 46"
  by (simp_all add: id_char_def is_alnum_def)

lemma not_word_char_46: "\<not> word_char U 46" and not_word_char_10: "\<not> word_char U 10"
  by (simp_all add: word_char_def is_alnum_def)

lemma capture_elim:
  assumes "rx (capture_pattern U) s = Some g"
  shows "\<exists>u ext nl. s = [95] @ u @ [46] @ ext @ nl \<and> u \<noteq> [] \<and> list_all id_char u
           \<and> ext \<noteq> [] \<and> list_all (word_char U) ext \<and> (nl = [] \<or> nl = [10])
           \<and> g = [[95], [], u, [], [46], ext, []]"
proof -
  from assms obtain c s1 g1 where 1: "s = c # s1" "lit 95 c"
    "rx [GOpen, Plus id_char, GClose, One (lit 46), Plus (word_char U), Eol] s1 = Some g1"
    "g = [c] # g1"
    unfolding capture_pattern_def by (blast dest: rx_One_elim)
  from rx_GOpen_elim [OF 1(3)] obtain g2 where 2:
    "rx [Plus id_char, GClose, One (lit 46), Plus (word_char U), Eol] s1 = Some g2" "g1 = [] # g2"
    by blast
  from rx_Plus_elim [OF 2(1)] obtain u s3 g3 where 3: "s1 = u @ s3" "u \<noteq> []" "list_all id_char u"
    "rx [GClose, One (lit 46), Plus (word_char U), Eol] s3 = Some g3" "g2 = u # g3"
    by blast
  from rx_GClose_elim [OF 3(4)] obtain g4 where 4:
    "rx [One (lit 46), Plus (word_char U), Eol] s3 = Some g4" "g3 = [] # g4"
    by blast
  from rx_One_elim [OF 4(1)] obtain d s5 g5 where 5: "s3 = d # s5" "lit 46 d"
    "rx [Plus (word_char U), Eol] s5 = Some g5" "g4 = [d] # g5"
    by blast
  from rx_Plus_elim [OF 5(3)] obtain ext nl g6 where 6: "s5 = ext @ nl" "ext \<noteq> []"
    "list_all (word_char U) ext" "rx [Eol] nl = Some g6" "g5 = ext # g6"
    by blast
  from 6(4) have 7: "nl = [] \<or> nl = [10]" "g6 = [[]]" by (auto split: if_splits)
  from 1 2 3 4 5 6 7 show ?thesis by (simp add: lit_def)
qed

lemma capture_intro:
  assumes "u \<noteq> []" "list_all id_char u" "ext \<noteq> []" "list_all (word_char U) ext"
    "nl = [] \<or> nl = [10]"
  shows "rx (capture_pattern U) ([95] @ u @ [46] @ ext @ nl) \<noteq> None"
proof -
  from assms(5) have "rx [Eol] nl \<noteq> None" by auto
  then have "rx [Plus (word_char U), Eol] (ext @ nl) \<noteq> None"
    using assms(3,4) by (rule_tac rx_Plus_intro)
  then have "rx [One (lit 46), Plus (word_char U), Eol] (46 # ext @ nl) \<noteq> None"
    by (simp add: lit_def)
  then have "rx [GClose, One (lit 46), Plus (word_char U), Eol] (46 # ext @ nl) \<noteq> None"
    by simp
  then have "rx [Plus id_char, GClose, One (lit 46), Plus (word_char U), Eol] (u @ 46 # ext @ nl) \<noteq> None"
    using assms(1,2) by (rule_tac rx_Plus_intro)
  then show ?thesis by (simp add: capture_pattern_def lit_def)
qed

lemma accept_elim:
  assumes "rx (accept_pattern U) s = Some g"
  shows "\<exists>p u ext nl. s = p @ [95] @ u @ [46] @ ext @ nl \<and> 10 \<notin> set p \<and> u \<noteq> []
           \<and> list_all id_char u \<and> ext \<noteq> [] \<and> list_all (word_char U) ext \<and> (nl = [] \<or> nl = [10])"
proof -
  from assms obtain p s0 g0 where 0: "s = p @ s0" "list_all dot p"
    "rx [One (lit 95), Plus id_char, One (lit 46), Plus (word_char U), Eol] s0 = Some g0"
    unfolding accept_pattern_def by (blast dest: rx_Star_elim)
  from rx_One_elim [OF 0(3)] obtain c s1 g1 where 1: "s0 = c # s1" "lit 95 c"
    "rx [Plus id_char, One (lit 46), Plus (word_char U), Eol] s1 = Some g1"
    by blast
  from rx_Plus_elim [OF 1(3)] obtain u s3 g3 where 3: "s1 = u @ s3" "u \<noteq> []" "list_all id_char u"
    "rx [One (lit 46), Plus (word_char U), Eol] s3 = Some g3"
    by blast
  from rx_One_elim [OF 3(4)] obtain d s5 g5 where 5: "s3 = d # s5" "lit 46 d"
    "rx [Plus (word_char U), Eol] s5 = Some g5"
    by blast
  from rx_Plus_elim [OF 5(3)] obtain ext nl g6 where 6: "s5 = ext @ nl" "ext \<noteq> []"
    "list_all (word_char U) ext" "rx [Eol] nl = Some g6"
    by blast
  from 6(4) have 7: "nl = [] \<or> nl = [10]" by (auto split: if_splits)
  from 0(2) have np: "10 \<notin> set p" by (auto simp: list_all_iff dot_def)
  from 0 1 3 5 6 have "s = p @ [95] @ u @ [46] @ ext @ nl" by (simp add: lit_def)
  with np 3(2,3) 6(2,3) 7 show ?thesis by (intro exI [of _ p] exI [of _ u] exI [of _ ext] exI [of _ nl]) simp
qed

lemma accept_intro:
  assumes "10 \<notin> set p" "u \<noteq> []" "list_all id_char u" "ext \<noteq> []" "list_all (word_char U) ext"
    "nl = [] \<or> nl = [10]"
  shows "rx (accept_pattern U) (p @ [95] @ u @ [46] @ ext @ nl) \<noteq> None"
proof -
  from assms(6) have "rx [Eol] nl \<noteq> None" by auto
  then have "rx [Plus (word_char U), Eol] (ext @ nl) \<noteq> None"
    using assms(4,5) by (rule_tac rx_Plus_intro)
  then have "rx [One (lit 46), Plus (word_char U), Eol] (46 # ext @ nl) \<noteq> None"
    by (simp add: lit_def)
  then have "rx [Plus id_char, One (lit 46), Plus (word_char U), Eol] (u @ 46 # ext @ nl) \<noteq> None"
    using assms(2,3) by (rule_tac rx_Plus_intro)
  then have "rx [One (lit 95), Plus id_char, One (lit 46), Plus (word_char U), Eol]
               (95 # u @ 46 # ext @ nl) \<noteq> None"
    by (simp add: lit_def)
  moreover from assms(1) have "list_all dot p" by (auto simp: list_all_iff dot_def)
  ultimately have "rx (Star dot # [One (lit 95), Plus id_char, One (lit 46), Plus (word_char U), Eol])
               (p @ 95 # u @ 46 # ext @ nl) \<noteq> None"
    by (rule_tac rx_Star_intro)
  then show ?thesis by (simp add: accept_pattern_def)
qed

text \<open>Two readings of one name as prefix, identifier, extension agree.\<close>

lemma name_parts_unique:
  assumes "p1 @ [95] @ u1 @ [46] @ e1 @ n1 = p2 @ [95] @ u2 @ [46] @ e2 @ n2"
    and "list_all id_char u1" "list_all (word_char U) e1" "n1 = [] \<or> n1 = [10]"
    and "list_all id_char u2" "list_all (word_char U) e2" "n2 = [] \<or> n2 = [10]"
  shows "p1 = p2 \<and> u1 = u2"
proof -
  have a: "46 \<notin> set (e1 @ n1)" using assms(3,4) not_word_char_46 [of U]
    by (auto simp: list_all_iff)
  have b: "46 \<notin> set (e2 @ n2)" using assms(6,7) not_word_char_46 [of U]
    by (auto simp: list_all_iff)
  from assms(1) have "(p1 @ 95 # u1) @ 46 # (e1 @ n1) = (p2 @ 95 # u2) @ 46 # (e2 @ n2)"
    by simp
  from split_unique [OF this a b] have c: "p1 @ 95 # u1 = p2 @ 95 # u2" by simp
  have "95 \<notin> set u1" "95 \<notin> set u2" using assms(2,5) not_id_char_95
    by (auto simp: list_all_iff)
  from split_unique [OF c this] show ?thesis by simp
qed

lemma group1_capture:
  "group1 (capture_pattern U) [[95], [], u, [], [46], ext, []] = u"
  by (simp add: group1_def capture_pattern_def)

lemma username_of_iff: "username_of U f = Some u \<longleftrightarrow> matches_name U f u"
proof
  assume h: "username_of U f = Some u"
  then obtain ga where "rx (accept_pattern U) f = Some ga"
    by (auto simp: username_of_def re_match_def split: if_splits)
  from accept_elim [OF this] obtain p u1 e1 n1 where
    A: "f = p @ [95] @ u1 @ [46] @ e1 @ n1" "10 \<notin> set p" "u1 \<noteq> []" "list_all id_char u1"
       "e1 \<noteq> []" "list_all (word_char U) e1" "n1 = [] \<or> n1 = [10]" by blast
  from h obtain g where g: "re_search (capture_pattern U) f = Some g"
    and u: "u = group1 (capture_pattern U) g"
    by (auto simp: username_of_def split: if_splits option.splits)
  from re_search_elim [OF g] obtain pre suf where
    ps: "f = pre @ suf" "rx (capture_pattern U) suf = Some g" by blast
  from capture_elim [OF ps(2)] obtain u2 e2 n2 where
    B: "suf = [95] @ u2 @ [46] @ e2 @ n2" "u2 \<noteq> []" "list_all id_char u2"
       "e2 \<noteq> []" "list_all (word_char U) e2" "n2 = [] \<or> n2 = [10]"
       "g = [[95], [], u2, [], [46], e2, []]" by blast
  from u B(7) have "u = u2" by (simp add: group1_capture)
  moreover from A(1) ps(1) B(1) have "p @ [95] @ u1 @ [46] @ e1 @ n1 = pre @ [95] @ u2 @ [46] @ e2 @ n2"
    by simp
  from name_parts_unique [OF this A(4) A(6) A(7) B(3) B(5) B(6)] have "u1 = u2" by simp
  ultimately show "matches_name U f u"
    unfolding matches_name_def using A by blast
next
  assume "matches_name U f u"
  then obtain p ext nl where
    A: "f = p @ [95] @ u @ [46] @ ext @ nl" "10 \<notin> set p" "u \<noteq> []" "list_all id_char u"
       "ext \<noteq> []" "list_all (word_char U) ext" "nl = [] \<or> nl = [10]"
    unfolding matches_name_def by blast
  have acc: "re_match (accept_pattern U) f \<noteq> None"
    unfolding re_match_def A(1) using A(2-7) by (rule accept_intro)
  have "rx (capture_pattern U) ([95] @ u @ [46] @ ext @ nl) \<noteq> None"
    using A(3-7) by (rule capture_intro)
  from re_search_intro [OF this, of p] obtain g where
    g: "re_search (capture_pattern U) f = Some g" using A(1) by auto
  from re_search_elim [OF g] obtain pre suf where
    ps: "f = pre @ suf" "rx (capture_pattern U) suf = Some g" by blast
  from capture_elim [OF ps(2)] obtain u2 e2 n2 where
    B: "suf = [95] @ u2 @ [46] @ e2 @ n2" "u2 \<noteq> []" "list_all id_char u2"
       "e2 \<noteq> []" "list_all (word_char U) e2" "n2 = [] \<or> n2 = [10]"
       "g = [[95], [], u2, [], [46], e2, []]" by blast
  from A(1) ps(1) B(1) have "p @ [95] @ u @ [46] @ ext @ nl = pre @ [95] @ u2 @ [46] @ e2 @ n2"
    by simp
  from name_parts_unique [OF this A(4) A(6) A(7) B(3) B(5) B(6)] have "u = u2" by simp
  with B(7) have "group1 (capture_pattern U) g = u" by (simp add: group1_capture)
  with acc g show "username_of U f = Some u"
    by (simp add: username_of_def)
qed

section \<open>Properties of the user name extractor\<close>

lemma fold_add_username_set:
  "set (fold (add_username U) fs acc) = set acc \<union> {u. \<exists>f\<in>set fs. username_of U f = Some u}"
  by (induction fs arbitrary: acc) (auto simp: add_username_def split: option.splits)

lemma fold_add_username_distinct:
  "distinct acc \<Longrightarrow> distinct (fold (add_username U) fs acc)"
  by (induction fs arbitrary: acc) (auto simp: add_username_def split: option.splits)

lemmas fs_eval = py_str_def listdir_def isdir_def isfile_def stat_def resolve_def path_join_def
  example_fs_def

lemmas rx_eval = username_of_def re_match_def accept_pattern_def capture_pattern_def
  group1_def dot_def lit_def id_char_def word_char_def is_alnum_def ascii_only_def

lemma example_listdir:
  "listdir example_fs (py_str ''sem'') =
     Inr [py_str ''report_alice.pdf'', py_str ''report_bob.pdf'', py_str ''summary_alice.pdf'',
          py_str ''readme.txt'', py_str ''old_carol.pdf'']"
  by (simp add: fs_eval)

lemma example_extract:
  "extract_unique_usernames_from_files ascii_only example_fs (py_str ''sem'')
     = Inr [py_str ''bob'', py_str ''alice'']"
  by (simp add: extract_unique_usernames_from_files_def add_username_def fs_eval rx_eval)

lemma matches_name_has_shape: "matches_name U f u \<Longrightarrow> name_has_shape f u"
proof -
  assume "matches_name U f u"
  then obtain p ext nl where "f = p @ [95] @ u @ [46] @ ext @ nl" "u \<noteq> []"
    "list_all id_char u" "ext \<noteq> []"
    unfolding matches_name_def by blast
  then have "f = p @ [95] @ u @ [46] @ (ext @ nl) \<and> u \<noteq> [] \<and> list_all id_char u
      \<and> ext @ nl \<noteq> []" by simp
  then show ?thesis unfolding name_has_shape_def by blast
qed

text \<open>
  C5 (as stated). The claim restricts the identifier only. The backup file
  \<^verbatim>\<open>report_alice.pdf~\<close> and a file whose name has a line feed before \<^verbatim>\<open>b_carol.pdf\<close>
  both have the shape \<^verbatim>\<open><anything>_<id>.<ext>\<close>, with the identifiers \<^verbatim>\<open>alice\<close> and
  \<^verbatim>\<open>carol\<close>, yet the extractor returns no identifier for their directory: the first
  pattern wants word characters up to the end of the name and one line before the
  underscore.
\<close>

theorem extract_unique_usernames_counterexample:
  "name_has_shape (py_str ''report_alice.pdf~'') (py_str ''alice'')
   \<and> name_has_shape (py_str ''a'' @ [10] @ py_str ''b_carol.pdf'') (py_str ''carol'')
   \<and> extract_unique_usernames_from_files ascii_only odd_names_fs (py_str ''sem'') = Inr []"
proof (intro conjI)
  have "py_str ''report_alice.pdf~''
          = py_str ''report'' @ [95] @ py_str ''alice'' @ [46] @ py_str ''pdf~''
        \<and> py_str ''alice'' \<noteq> [] \<and> list_all id_char (py_str ''alice'')
        \<and> py_str ''pdf~'' \<noteq> []"
    by (simp add: py_str_def id_char_def is_alnum_def)
  then show "name_has_shape (py_str ''report_alice.pdf~'') (py_str ''alice'')"
    unfolding name_has_shape_def by blast
next
  have "py_str ''a'' @ [10] @ py_str ''b_carol.pdf''
          = (py_str ''a'' @ [10] @ py_str ''b'') @ [95] @ py_str ''carol'' @ [46] @ py_str ''pdf''
        \<and> py_str ''carol'' \<noteq> [] \<and> list_all id_char (py_str ''carol'')
        \<and> py_str ''pdf'' \<noteq> []"
    by (simp add: py_str_def id_char_def is_alnum_def)
  then show "name_has_shape (py_str ''a'' @ [10] @ py_str ''b_carol.pdf'') (py_str ''carol'')"
    unfolding name_has_shape_def by blast
next
  show "extract_unique_usernames_from_files ascii_only odd_names_fs (py_str ''sem'') = Inr []"
    by (simp add: extract_unique_usernames_from_files_def add_username_def odd_names_fs_def
        py_str_def listdir_def isdir_def isfile_def stat_def resolve_def path_join_def rx_eval)
qed

text \<open>
  C5 (amended). For every directory that can be listed, the extractor returns the
  identifiers of the top-level regular files whose names are a prefix on one line, an
  underscore, the identifier, a dot and an extension of word characters that ends the
  name (a final line feed apart); each identifier occurs exactly once however many
  files share it, and nothing else is returned: no token comes from a name that does
  not match, and entries that are not regular files contribute nothing.
\<close>

theorem extract_unique_usernames:
  assumes "listdir fsys semester_folder = Inr all_entries"
  shows "\<exists>names. extract_unique_usernames_from_files U fsys semester_folder = Inr names
           \<and> distinct names
           \<and> set names = {u. \<exists>f \<in> set (filter (\<lambda>f. isfile fsys (path_join semester_folder f))
                                           all_entries). matches_name U f u}"
  using assms
  by (simp add: extract_unique_usernames_from_files_def fold_add_username_set
      fold_add_username_distinct username_of_iff)

theorem extract_unique_usernames_witness:
  "extract_unique_usernames_from_files ascii_only example_fs (py_str ''sem'')
     = Inr [py_str ''bob'', py_str ''alice'']
   \<and> (\<exists>names. extract_unique_usernames_from_files ascii_only example_fs (py_str ''sem'')
          = Inr names
        \<and> distinct names
        \<and> set names =
            {u. \<exists>f \<in> set (filter (\<lambda>f. isfile example_fs (path_join (py_str ''sem'') f))
                             [py_str ''report_alice.pdf'', py_str ''report_bob.pdf'',
                              py_str ''summary_alice.pdf'', py_str ''readme.txt'',
                              py_str ''old_carol.pdf'']).
                 matches_name ascii_only f u})"
  using example_extract extract_unique_usernames [OF example_listdir, of ascii_only]
  by (rule conjI)

text \<open>
  C10 (as stated). The claim derives the identifier from the last underscore of the
  name. The name \<^verbatim>\<open>x_a.b_c\<close> is accepted, since \<^verbatim>\<open>\w\<close> admits the underscore in the
  extension, and the extractor yields \<^verbatim>\<open>a\<close>, which follows the first underscore; the
  run after the last underscore is \<^verbatim>\<open>c\<close>.
\<close>

theorem username_last_underscore_counterexample:
  "username_of ascii_only (py_str ''x_a.b_c'') = Some (py_str ''a'')
   \<and> token_after_last_underscore (py_str ''x_a.b_c'') = py_str ''c''"
  by (simp add: rx_eval py_str_def token_after_last_underscore_def)

text \<open>
  C10 (amended). For every accepted file name the identifier is taken at the last
  underscore that precedes the final dot: the name is a prefix, that underscore, the
  identifier, the final dot and a rest without dot; the identifier is a non-empty run of
  identifier characters and holds no underscore. When the rest after the final dot has
  no underscore either, the identifier is the run after the last underscore of the name.
\<close>

theorem username_from_last_underscore_before_dot:
  assumes "username_of U f = Some u"
  shows "\<exists>p ext. f = p @ [95] @ u @ [46] @ ext \<and> 46 \<notin> set ext \<and> 95 \<notin> set u
           \<and> u \<noteq> [] \<and> list_all id_char u
           \<and> (95 \<notin> set ext \<longrightarrow> token_after_last_underscore f = u)"
proof -
  from assms have "matches_name U f u" by (simp add: username_of_iff)
  then obtain p ext nl where
    A: "f = p @ [95] @ u @ [46] @ ext @ nl" "u \<noteq> []" "list_all id_char u"
       "list_all (word_char U) ext" "nl = [] \<or> nl = [10]"
    unfolding matches_name_def by blast
  have d: "46 \<notin> set (ext @ nl)" using A(4,5) not_word_char_46 [of U]
    by (auto simp: list_all_iff)
  have n: "95 \<notin> set u" using A(3) not_id_char_95 by (auto simp: list_all_iff)
  have t: "token_after_last_underscore f = u" if "95 \<notin> set (ext @ nl)"
  proof -
    have r: "rev f = rev (u @ 46 # ext @ nl) @ 95 # rev p" using A(1) by simp
    have "95 \<notin> set (rev (u @ 46 # ext @ nl))" using n that by simp
    then have "takeWhile (\<lambda>c. c \<noteq> 95) (rev f) = rev (u @ 46 # ext @ nl)"
      unfolding r by (rule takeWhile_until)
    then have "token_after_last_underscore f = takeWhile id_char (u @ 46 # ext @ nl)"
      by (simp add: token_after_last_underscore_def)
    also have "\<dots> = u" using A(3) not_id_char_46
      by (simp add: takeWhile_append2 list_all_iff)
    finally show ?thesis .
  qed
  from A(1) have "f = p @ [95] @ u @ [46] @ (ext @ nl)" by simp
  with d n A(2,3) t show ?thesis by blast
qed

theorem username_from_last_underscore_before_dot_witness:
  "username_of ascii_only (py_str ''report_a_b.pdf'') = Some (py_str ''b'')
   \<and> (\<exists>p ext. py_str ''report_a_b.pdf'' = p @ [95] @ py_str ''b'' @ [46] @ ext
         \<and> 46 \<notin> set ext \<and> 95 \<notin> set (py_str ''b'')
         \<and> py_str ''b'' \<noteq> [] \<and> list_all id_char (py_str ''b'')
         \<and> (95 \<notin> set ext \<longrightarrow>
              token_after_last_underscore (py_str ''report_a_b.pdf'') = py_str ''b''))"
proof -
  have h: "username_of ascii_only (py_str ''report_a_b.pdf'') = Some (py_str ''b'')"
    by (simp add: rx_eval py_str_def)
  from h username_from_last_underscore_before_dot [OF h] show ?thesis by (rule conjI)
qed

section \<open>Properties of \<open>get_or_create_folder\<close>\<close>

lemma find_append_Some: "find P xs = Some x \<Longrightarrow> find P (xs @ ys) = Some x"
  by (induction xs) auto

lemma find_append_None: "find P xs = None \<Longrightarrow> find P (xs @ ys) = find P ys"
  by (induction xs) (auto split: if_splits)

lemma find_in_set: "find P xs = Some x \<Longrightarrow> x \<in> set xs \<and> P x"
  by (induction xs) (auto split: if_splits)

lemma grows_iff:
  "grows l l' \<longleftrightarrow> users l' = users l \<and> (\<exists>new. folders l' = folders l @ new)"
proof
  assume "grows l l'"
  then have "users l' = users l" "folders l' = folders l @ drop (length (folders l)) (folders l')"
    by (simp_all add: grows_def) (metis append_take_drop_id)
  then show "users l' = users l \<and> (\<exists>new. folders l' = folders l @ new)" by blast
next
  assume "users l' = users l \<and> (\<exists>new. folders l' = folders l @ new)"
  then show "grows l l'" by (auto simp: grows_def)
qed

lemma grows_refl: "grows l l"
  by (simp add: grows_def)

lemma grows_trans: "grows l l' \<Longrightarrow> grows l' l'' \<Longrightarrow> grows l l''"
  by (auto simp: grows_iff)

lemma canvas_get_folder_grows:
  "canvas_get_folder l i = Inr f \<Longrightarrow> grows l l' \<Longrightarrow> canvas_get_folder l' i = Inr f"
  by (auto simp: canvas_get_folder_def grows_iff find_append_Some split: option.splits)

lemma canvas_get_folder_id: "canvas_get_folder l i = Inr f \<Longrightarrow> f_id f = i"
  by (auto simp: canvas_get_folder_def split: option.splits dest: find_in_set)

lemma canvas_get_folder_known:
  "\<exists>f \<in> set (folders l). f_id f = i \<Longrightarrow> \<exists>f. canvas_get_folder l i = Inr f"
  by (auto simp: canvas_get_folder_def find_None_iff split: option.splits)

lemma segment_grows: "segment l u cur n = (r, l', t) \<Longrightarrow> grows l l'"
  by (auto simp: segment_def segment_below_def segment_at_root_def grows_iff
      folder_create_folder_def user_create_folder_def split: if_splits sum.splits option.splits)

lemma segment_found_in:
  "segment l u cur n = (Inr f, l', t) \<Longrightarrow> f \<in> set (folders l')"
  by (auto simp: segment_def segment_below_def segment_at_root_def
      folder_create_folder_def user_create_folder_def folder_get_folders_def user_get_folders_def
      split: if_splits sum.splits option.splits dest: find_in_set)

lemma segment_ok:
  "known_id l cur \<Longrightarrow> \<exists>f l' t. segment l u cur n = (Inr f, l', t)"
proof (cases "truthy_id cur")
  case True
  assume "known_id l cur"
  with True obtain parent where "canvas_get_folder l (the cur) = Inr parent"
    using canvas_get_folder_known [of l "the cur"] by (auto simp: known_id_def)
  with True show ?thesis
    by (auto simp: segment_def segment_below_def split: option.splits)
next
  case False
  then show ?thesis
    by (auto simp: segment_def segment_at_root_def split: option.splits)
qed

lemma segment_below_stable:
  assumes "segment_below l c n = (Inr f, l', t)" "grows l' l''"
  shows "\<exists>t'. segment_below l'' c n = (Inr f, l'', t') \<and> list_all (\<lambda>c. \<not> is_create c) t'"
proof -
  from assms(1) obtain parent where p: "canvas_get_folder l c = Inr parent"
    by (auto simp: segment_below_def split: sum.splits)
  have pid: "f_id parent = c" using p by (rule canvas_get_folder_id)
  show ?thesis
  proof (cases "find (\<lambda>f. f_name f = n) (folder_get_folders l parent)")
    case (Some g)
    with assms(1) p have e: "f = g" "l' = l" by (simp_all add: segment_below_def)
    with assms(2) obtain new where new: "folders l'' = folders l @ new"
      by (auto simp: grows_iff)
    from p assms(2) e have p'': "canvas_get_folder l'' c = Inr parent"
      by (auto intro: canvas_get_folder_grows)
    from Some new have "find (\<lambda>f. f_name f = n) (folder_get_folders l'' parent) = Some g"
      by (simp add: folder_get_folders_def find_append_Some)
    with p'' e show ?thesis by (simp add: segment_below_def)
  next
    case None
    with assms(1) p have e: "f = fst (folder_create_folder l parent n)"
      "l' = snd (folder_create_folder l parent n)" by (simp_all add: segment_below_def)
    from e(2) assms(2) obtain new where
      new: "folders l'' = folders l @ [f] @ new"
      using e(1) by (auto simp: grows_iff folder_create_folder_def)
    have "grows l l'" using e(2) by (auto simp: grows_iff folder_create_folder_def)
    then have "grows l l''" using assms(2) by (rule grows_trans)
    with p have p'': "canvas_get_folder l'' c = Inr parent"
      by (rule canvas_get_folder_grows)
    have ff: "f_parent f = Some (f_id parent)" "f_name f = n"
      using e(1) by (simp_all add: folder_create_folder_def)
    from None new ff have "find (\<lambda>f. f_name f = n) (folder_get_folders l'' parent) = Some f"
      by (simp add: folder_get_folders_def find_append_None)
    with p'' show ?thesis by (simp add: segment_below_def)
  qed
qed

lemma segment_at_root_stable:
  assumes "segment_at_root l u n = (Inr f, l', t)" "grows l' l''"
  shows "\<exists>t'. segment_at_root l'' u n = (Inr f, l'', t') \<and> list_all (\<lambda>c. \<not> is_create c) t'"
proof (cases "find (\<lambda>f. f_name f = n) (user_get_folders l u)")
  case (Some g)
  with assms(1) have e: "f = g" "l' = l" by (simp_all add: segment_at_root_def)
  with assms(2) obtain new where new: "folders l'' = folders l @ new"
    by (auto simp: grows_iff)
  from Some new have "find (\<lambda>f. f_name f = n) (user_get_folders l'' u) = Some g"
    by (simp add: user_get_folders_def find_append_Some)
  with e show ?thesis by (simp add: segment_at_root_def)
next
  case None
  with assms(1) have e: "f = fst (user_create_folder l u n)"
    "l' = snd (user_create_folder l u n)" by (simp_all add: segment_at_root_def)
  from e(2) assms(2) obtain new where
    new: "folders l'' = folders l @ [f] @ new"
    using e(1) by (auto simp: grows_iff user_create_folder_def)
  have ff: "f_parent f = None" "f_owner f = u" "f_name f = n"
    using e(1) by (simp_all add: user_create_folder_def)
  from None new ff have "find (\<lambda>f. f_name f = n) (user_get_folders l'' u) = Some f"
    by (simp add: user_get_folders_def find_append_None)
  then show ?thesis by (simp add: segment_at_root_def)
qed

lemma segment_stable:
  assumes "segment l u cur n = (Inr f, l', t)" "grows l' l''"
  shows "\<exists>t'. segment l'' u cur n = (Inr f, l'', t') \<and> list_all (\<lambda>c. \<not> is_create c) t'"
  using assms segment_below_stable [of l "the cur" n f l' t l'']
    segment_at_root_stable [of l u n f l' t l'']
  by (auto simp: segment_def split: if_splits)

lemma walk_grows: "walk l u ns cur = (r, l', t) \<Longrightarrow> grows l l'"
proof (induction ns arbitrary: l cur r l' t)
  case Nil
  then show ?case by (simp add: grows_refl)
next
  case (Cons n ns)
  obtain sr sl st where s: "segment l u cur n = (sr, sl, st)" by (cases "segment l u cur n")
  show ?case
  proof (cases sr)
    case (Inl e)
    with Cons.prems s have "l' = sl" by simp
    with s show ?thesis by (auto dest: segment_grows)
  next
    case (Inr f)
    obtain wr wl wt where w: "walk sl u ns (Some (f_id f)) = (wr, wl, wt)"
      by (cases "walk sl u ns (Some (f_id f))")
    with Cons.prems s Inr have "l' = wl" by simp
    with Cons.IH [OF w] segment_grows [OF s] show ?thesis by (auto intro: grows_trans)
  qed
qed

lemma walk_ok:
  "known_id l cur \<Longrightarrow> \<exists>r l' t. walk l u ns cur = (Inr r, l', t)"
proof (induction ns arbitrary: l cur)
  case Nil
  then show ?case by simp
next
  case (Cons n ns)
  from segment_ok [OF Cons.prems] obtain f sl st where
    s: "segment l u cur n = (Inr f, sl, st)" by blast
  from segment_found_in [OF s] have "known_id sl (Some (f_id f))"
    by (auto simp: known_id_def)
  from Cons.IH [OF this] obtain r l' t where "walk sl u ns (Some (f_id f)) = (Inr r, l', t)"
    by blast
  with s show ?case by simp
qed

lemma walk_stable:
  "walk l u ns cur = (Inr r, l1, t) \<Longrightarrow> grows l1 l'' \<Longrightarrow>
     \<exists>t'. walk l'' u ns cur = (Inr r, l'', t') \<and> list_all (\<lambda>c. \<not> is_create c) t'"
proof (induction ns arbitrary: l cur t)
  case Nil
  then show ?case by simp
next
  case (Cons n ns)
  obtain sr sl st where s: "segment l u cur n = (sr, sl, st)" by (cases "segment l u cur n")
  with Cons.prems(1) obtain f where f: "sr = Inr f" by (cases sr) auto
  obtain wr wl wt where w: "walk sl u ns (Some (f_id f)) = (wr, wl, wt)"
    by (cases "walk sl u ns (Some (f_id f))")
  with Cons.prems(1) s f have e: "wr = Inr r" "wl = l1" by simp_all
  from walk_grows [OF w] e Cons.prems(2) have g: "grows sl l''" by (auto intro: grows_trans)
  from segment_stable [OF s [unfolded f] g] obtain st' where
    s': "segment l'' u cur n = (Inr f, l'', st')" "list_all (\<lambda>c. \<not> is_create c) st'" by blast
  from Cons.IH [OF w [unfolded e] Cons.prems(2)] obtain wt' where
    w': "walk l'' u ns (Some (f_id f)) = (Inr r, l'', wt')" "list_all (\<lambda>c. \<not> is_create c) wt'"
    by blast
  from s' w' show ?case by simp
qed

lemmas lms_eval = get_or_create_folder_def truthy_id_def canvas_get_user_def canvas_get_folder_def
  segment_def segment_below_def segment_at_root_def user_get_folders_def folder_get_folders_def
  user_create_folder_def folder_create_folder_def fresh_id_def example_lms_def

lemma example_first_call:
  "get_or_create_folder example_lms (Some 7) (py_str ''reports/2024'') None =
     (Some (FolderId 4),
      \<lparr> users = [7],
        folders = [\<lparr> f_id = 3, f_name = py_str ''reports'', f_parent = None, f_owner = 7 \<rparr>,
                   \<lparr> f_id = 4, f_name = py_str ''2024'', f_parent = Some 3, f_owner = 7 \<rparr>] \<rparr>,
      [GetUser (Some 7), ListUserFolders 7, GetFolder 3, ListFolders 3, GetFolder 3,
       CreateFolder 3 (py_str ''2024'')])"
  by (simp add: lms_eval py_str_def)

text \<open>
  C9. Resolving a path twice in succession, without a supplied folder id, gives the same
  result both times and leaves the store after the first call unchanged: the second call
  makes no creating call, so no folder is created twice for a segment that exists.
\<close>

theorem get_or_create_folder_idempotent:
  assumes "get_or_create_folder l user_id folder_path None = (r1, l1, t1)"
  shows "\<exists>t2. get_or_create_folder l1 user_id folder_path None = (r1, l1, t2)
           \<and> list_all (\<lambda>c. \<not> is_create c) t2"
proof (cases "canvas_get_user l user_id")
  case (Inl e)
  with assms have "r1 = None" "l1 = l"
    by (simp_all add: get_or_create_folder_def truthy_id_def)
  with Inl show ?thesis by (simp add: get_or_create_folder_def truthy_id_def)
next
  case (Inr u)
  have "known_id l None" by (simp add: known_id_def truthy_id_def)
  from walk_ok [OF this] obtain r l' t where
    w: "walk l u (split_on 47 folder_path) None = (Inr r, l', t)" by blast
  with assms Inr have e: "r1 = map_option FolderId r" "l1 = l'"
    by (simp_all add: get_or_create_folder_def truthy_id_def)
  from walk_grows [OF w] have "users l' = users l" by (simp add: grows_iff)
  with Inr have u': "canvas_get_user l' user_id = Inr u"
    by (auto simp: canvas_get_user_def split: option.splits if_splits)
  from walk_stable [OF w grows_refl] obtain t' where
    "walk l' u (split_on 47 folder_path) None = (Inr r, l', t')"
    "list_all (\<lambda>c. \<not> is_create c) t'" by blast
  with u' e show ?thesis by (simp add: get_or_create_folder_def truthy_id_def)
qed

theorem get_or_create_folder_idempotent_witness:
  "get_or_create_folder example_lms (Some 7) (py_str ''reports/2024'') None =
     (Some (FolderId 4),
      \<lparr> users = [7],
        folders = [\<lparr> f_id = 3, f_name = py_str ''reports'', f_parent = None, f_owner = 7 \<rparr>,
                   \<lparr> f_id = 4, f_name = py_str ''2024'', f_parent = Some 3, f_owner = 7 \<rparr>] \<rparr>,
      [GetUser (Some 7), ListUserFolders 7, GetFolder 3, ListFolders 3, GetFolder 3,
       CreateFolder 3 (py_str ''2024'')])
   \<and> (\<exists>t2. get_or_create_folder
          \<lparr> users = [7],
            folders = [\<lparr> f_id = 3, f_name = py_str ''reports'', f_parent = None, f_owner = 7 \<rparr>,
                       \<lparr> f_id = 4, f_name = py_str ''2024'', f_parent = Some 3, f_owner = 7 \<rparr>] \<rparr>
          (Some 7) (py_str ''reports/2024'') None =
        (Some (FolderId 4),
         \<lparr> users = [7],
           folders = [\<lparr> f_id = 3, f_name = py_str ''reports'', f_parent = None, f_owner = 7 \<rparr>,
                      \<lparr> f_id = 4, f_name = py_str ''2024'', f_parent = Some 3, f_owner = 7 \<rparr>] \<rparr>,
         t2)
        \<and> list_all (\<lambda>c. \<not> is_create c) t2)"
  using example_first_call get_or_create_folder_idempotent [OF example_first_call]
  by (rule conjI)

text \<open>
  C4 (as stated). The claim returns the supplied id itself, unvalidated. The code fetches
  the folder: for an id that the service does not hold the result is absent, and for one
  that it holds the result is the folder object, not the id.
\<close>

theorem get_or_create_folder_supplied_id_counterexample:
  "fst (get_or_create_folder example_lms (Some 7) (py_str ''reports/2024'') (Some 9)) = None
   \<and> fst (get_or_create_folder example_lms (Some 7) (py_str ''reports/2024'') (Some 3))
       = Some (FolderObj \<lparr> f_id = 3, f_name = py_str ''reports'', f_parent = None, f_owner = 7 \<rparr>)"
  by (simp add: lms_eval)

text \<open>
  C4 (amended). With a non-zero folder id supplied, the only call is the fetch of that
  folder; the store is unchanged, no path walk takes place, and the result is the
  fetched folder object, which carries the supplied id, or absent when the fetch raises.
\<close>

theorem get_or_create_folder_supplied_id:
  assumes "folder_id \<noteq> 0"
  shows "get_or_create_folder l user_id folder_path (Some folder_id) =
           ((case canvas_get_folder l folder_id of
               Inl e \<Rightarrow> None
             | Inr f \<Rightarrow> Some (FolderObj f)),
            l, [GetFolder folder_id])
         \<and> (case canvas_get_folder l folder_id of
               Inl e \<Rightarrow> True
             | Inr f \<Rightarrow> f_id f = folder_id)"
  using assms
  by (auto simp: get_or_create_folder_def truthy_id_def split: sum.splits
      dest: canvas_get_folder_id)

theorem get_or_create_folder_supplied_id_witness:
  "(3::nat) \<noteq> 0
   \<and> get_or_create_folder example_lms (Some 7) (py_str ''reports/2024'') (Some 3) =
       (Some (FolderObj \<lparr> f_id = 3, f_name = py_str ''reports'', f_parent = None, f_owner = 7 \<rparr>),
        example_lms, [GetFolder 3])"
proof -
  have h: "(3::nat) \<noteq> 0" by simp
  have g: "canvas_get_folder example_lms 3 =
      Inr \<lparr> f_id = 3, f_name = py_str ''reports'', f_parent = None, f_owner = 7 \<rparr>"
    by (simp add: canvas_get_folder_def example_lms_def)
  from get_or_create_folder_supplied_id [OF h, of example_lms "Some 7" "py_str ''reports/2024''"]
  show ?thesis by (simp add: g)
qed

section \<open>Properties of the float arithmetic\<close>

lemma round_half_even_of_int: "round_half_even (of_int z) = z"
  by (simp add: round_half_even_def)

lemma pow2_frac_le:
  assumes "0 < d" "2 ^ nat a \<le> n" "d < 2 ^ nat b"
  shows "(2::rat) ^ nat a / 2 ^ nat b \<le> of_int n / of_int d"
proof -
  have "(of_int (2 ^ nat a) :: rat) \<le> of_int n" using assms(2) by (simp only: of_int_le_iff)
  then have 1: "(2::rat) ^ nat a \<le> of_int n" by simp
  have "(of_int d :: rat) \<le> of_int (2 ^ nat b)" using assms(3) by (simp only: of_int_le_iff)
  then have 2: "(of_int d :: rat) \<le> 2 ^ nat b" by simp
  have 3: "(0::rat) < of_int d" using assms(1) by simp
  have "(0::rat) \<le> 2 ^ nat a" by simp
  then have 4: "(0::rat) \<le> of_int n" using 1 by (rule order_trans)
  show ?thesis using 4 1 3 2 by (rule frac_le)
qed

lemma ilog2_le:
  assumes "0 < x"
  shows "2 powi (ilog2 x) \<le> x"
proof -
  obtain n d where q: "quotient_of x = (n, d)" by (cases "quotient_of x")
  then have d: "0 < d" and x: "x = of_int n / of_int d"
    by (auto dest: quotient_of_denom_pos quotient_of_div)
  with assms have n: "0 < n" by (simp add: zero_less_divide_iff)
  from bitlen_bounds [OF n] have bn: "2 ^ nat (bitlen n - 1) \<le> n" by simp
  from bitlen_bounds [OF d] have bd: "d < 2 ^ nat (bitlen d)" by simp
  have n1: "1 \<le> bitlen n" using n by (simp add: bitlen_alt_def)
  have d1: "0 \<le> bitlen d" by (rule bitlen_nonneg)
  have "(2::rat) powi (bitlen n - bitlen d - 1) = 2 powi (bitlen n - 1) / 2 powi (bitlen d)"
    by (simp add: power_int_diff)
  also have "\<dots> = 2 ^ nat (bitlen n - 1) / 2 ^ nat (bitlen d)"
    using n1 d1 by (simp add: power_int_nonneg_exp)
  also have "\<dots> \<le> of_int n / of_int d"
    using d bn bd by (rule pow2_frac_le)
  finally have "(2::rat) powi (bitlen n - bitlen d - 1) \<le> x" using x by simp
  then show ?thesis using q by (simp add: ilog2_def)
qed

lemma ilog2_less:
  assumes "0 < x" "x < 2 powi k"
  shows "ilog2 x < k"
proof (rule ccontr)
  assume "\<not> ilog2 x < k"
  then have "(2::rat) powi k \<le> 2 powi (ilog2 x)" by (simp add: power_int_increasing)
  with ilog2_le [OF assms(1)] assms(2) show False by simp
qed

text \<open>A multiple of \<open>2 ^ - 20\<close> with fewer than 54 bits is a binary64 value.\<close>

lemma double_round_exact:
  assumes "\<bar>m\<bar> < 2 ^ 53"
  shows "double_round (of_int m / 2 ^ 20) = of_int m / 2 ^ 20"
proof (cases "m = 0")
  case True
  then show ?thesis by (simp add: double_round_def)
next
  case False
  define x :: rat where "x = of_int m / 2 ^ 20"
  define e where "e = max (ilog2 \<bar>x\<bar> - 52) (- 1074)"
  have x0: "x \<noteq> 0" "0 < \<bar>x\<bar>" using False by (simp_all add: x_def)
  have ax: "\<bar>x\<bar> = of_int \<bar>m\<bar> / 2 ^ 20" by (simp add: x_def)
  have "(of_int \<bar>m\<bar> :: rat) < of_int (2 ^ 53)" using assms by (simp only: of_int_less_iff)
  then have "\<bar>x\<bar> < 2 ^ 53 / 2 ^ 20" unfolding ax by (simp add: divide_strict_right_mono)
  then have "\<bar>x\<bar> < 2 powi 33" by simp
  from ilog2_less [OF x0(2) this] have e20: "e \<le> - 20" by (simp add: e_def)
  have "\<bar>x\<bar> / 2 powi e = of_int \<bar>m\<bar> * 2 powi (- 20 - e)"
    unfolding ax by (simp add: power_int_diff power_int_minus field_simps)
  also have "\<dots> = of_int \<bar>m\<bar> * 2 ^ nat (- 20 - e)"
    using e20 by (simp add: power_int_nonneg_exp)
  also have "\<dots> = of_int (\<bar>m\<bar> * 2 ^ nat (- 20 - e))" by simp
  finally have i: "\<bar>x\<bar> / 2 powi e = of_int (\<bar>m\<bar> * 2 ^ nat (- 20 - e))" .
  have "double_round x = sgn x * of_int (round_half_even (\<bar>x\<bar> / 2 powi e)) * 2 powi e"
    using x0 by (simp add: double_round_def e_def)
  also have "\<dots> = sgn x * (\<bar>x\<bar> / 2 powi e) * 2 powi e"
    by (simp only: i round_half_even_of_int)
  also have "\<dots> = sgn x * \<bar>x\<bar>" by simp
  also have "\<dots> = x" by (simp add: sgn_mult_abs)
  finally show ?thesis by (simp add: x_def)
qed

section \<open>Properties of \<open>get_remaining_space\<close>\<close>

lemma int_true_div_mb:
  assumes "0 \<le> m" "m < 2 ^ 53"
  shows "int_true_div m (1024 * 1024) = Inr (of_int m / 2 ^ 20)"
proof -
  have a: "\<bar>m\<bar> < 2 ^ 53" using assms by simp
  have e: "(of_int m :: rat) / of_int (1024 * 1024) = of_int m / 2 ^ 20" by simp
  have "(of_int m :: rat) < of_int (2 ^ 53)" using assms(2) by (simp only: of_int_less_iff)
  then have "(of_int m :: rat) / 2 ^ 20 < 2 ^ 53 / 2 ^ 20" by (simp add: divide_strict_right_mono)
  also have "\<dots> \<le> (2::rat) ^ 1024" by simp
  finally have b: "\<bar>(of_int m :: rat) / 2 ^ 20\<bar> < 2 ^ 1024" using assms(1) by simp
  show ?thesis
    unfolding int_true_div_def e double_round_exact [OF a] using b by simp
qed

lemma float_sub_mb:
  assumes "0 \<le> q" "q < 2 ^ 53" "0 \<le> u" "u < 2 ^ 53"
  shows "float_sub (of_int q / 2 ^ 20) (of_int u / 2 ^ 20) = Finite (of_int (q - u) / 2 ^ 20)"
proof -
  have a: "\<bar>q - u\<bar> < 2 ^ 53" using assms by simp
  have e: "(of_int q :: rat) / 2 ^ 20 - of_int u / 2 ^ 20 = of_int (q - u) / 2 ^ 20"
    by (simp add: diff_divide_distrib)
  have "(of_int \<bar>q - u\<bar> :: rat) < of_int (2 ^ 53)" using a by (simp only: of_int_less_iff)
  then have "(of_int \<bar>q - u\<bar> :: rat) / 2 ^ 20 < 2 ^ 53 / 2 ^ 20"
    by (simp add: divide_strict_right_mono)
  also have "\<dots> \<le> (2::rat) ^ 1024" by simp
  finally have "\<bar>(of_int (q - u) :: rat) / 2 ^ 20\<bar> < 2 ^ 1024" by simp
  then have b: "(of_int (q - u) :: rat) / 2 ^ 20 < 2 ^ 1024"
    "- (2 ^ 1024) < (of_int (q - u) :: rat) / 2 ^ 20" by (simp_all add: abs_less_iff)
  show ?thesis
    unfolding float_sub_def e double_round_exact [OF a] using b by simp
qed

lemma remaining_mb_exact:
  assumes "0 \<le> q" "q < 2 ^ 53" "0 \<le> u" "u < 2 ^ 53"
  shows "remaining_mb (JInt q) (JInt u) = Inr (Finite (of_int (q - u) / (1024 * 1024)))"
proof -
  have 1: "int_true_div q (1024 * 1024) = Inr (of_int q / 2 ^ 20)"
    using assms(1,2) by (rule int_true_div_mb)
  have 2: "int_true_div u (1024 * 1024) = Inr (of_int u / 2 ^ 20)"
    using assms(3,4) by (rule int_true_div_mb)
  have 3: "float_sub (of_int q / 2 ^ 20) (of_int u / 2 ^ 20) = Finite (of_int (q - u) / 2 ^ 20)"
    using assms by (rule float_sub_mb)
  have 4: "(of_int (q - u) :: rat) / 2 ^ 20 = of_int (q - u) / (1024 * 1024)" by simp
  show ?thesis
    unfolding remaining_mb_def by (simp only: as_number.simps sum.case 1 2 3 4)
qed

lemma remaining_of_response_absent:
  "remaining_of_response r = Inr None \<longleftrightarrow>
     (\<not> (200 \<le> status_code r \<and> status_code r < 300)
      \<or> (\<exists>kvs. json_body r = Some (JObj kvs)
            \<and> (map_of (rev kvs) (py_str ''quota'') = None
               \<or> map_of (rev kvs) (py_str ''quota_used'') = None)))"
proof (cases "200 \<le> status_code r \<and> status_code r < 300")
  case False
  then show ?thesis by (auto simp: remaining_of_response_def)
next
  case True
  show ?thesis
  proof (cases "json_body r")
    case None
    with True show ?thesis by (simp add: remaining_of_response_def response_json_def)
  next
    case (Some body)
    show ?thesis
    proof (cases body)
      case (JObj kvs)
      with True Some show ?thesis
        by (auto simp: remaining_of_response_def response_json_def
            split: option.splits sum.splits)
    qed (use True Some in \<open>simp_all add: remaining_of_response_def response_json_def\<close>)
  qed
qed

lemma remaining_of_response_value:
  assumes "200 \<le> status_code r \<and> status_code r < 300"
    and "json_body r = Some (JObj kvs)"
    and "map_of (rev kvs) (py_str ''quota'') = Some (JInt q)"
    and "map_of (rev kvs) (py_str ''quota_used'') = Some (JInt u)"
    and "0 \<le> q" "q < 2 ^ 53" "0 \<le> u" "u < 2 ^ 53"
  shows "remaining_of_response r = Inr (Some (Finite (of_int (q - u) / (1024 * 1024))))"
  using assms(1-4) remaining_mb_exact [OF assms(5-8)]
  by (simp add: remaining_of_response_def response_json_def)

lemma double_round_big_quota: "double_round (of_int (2 ^ 60) / of_int (1024 * 1024)) = 2 ^ 40"
  by code_simp

lemma double_round_big_used: "double_round (of_int (2 ^ 60 + 1) / of_int (1024 * 1024)) = 2 ^ 40"
  by code_simp

lemma int_true_div_big_quota: "int_true_div (2 ^ 60) (1024 * 1024) = Inr (2 ^ 40)"
  unfolding int_true_div_def double_round_big_quota by simp

lemma int_true_div_big_used: "int_true_div (2 ^ 60 + 1) (1024 * 1024) = Inr (2 ^ 40)"
  unfolding int_true_div_def double_round_big_used by simp

lemma big_remaining: "remaining_mb (JInt (2 ^ 60)) (JInt (2 ^ 60 + 1)) = Inr (Finite 0)"
  unfolding remaining_mb_def by (simp only: as_number.simps sum.case int_true_div_big_quota int_true_div_big_used)
    (simp add: float_sub_def double_round_def)

text \<open>
  C8 (as stated). With a quota of \<open>2 ^ 60\<close> bytes and \<open>2 ^ 60 + 1\<close> bytes used, both
  quotients round to the same float and the result is \<open>0\<close>: neither negative nor the
  exact value of the difference. And a 2xx answer whose body is a JSON array lacks both
  fields, yet the method raises \<^verbatim>\<open>TypeError\<close> instead of returning absent.
\<close>

theorem get_remaining_space_counterexample:
  "get_remaining_space (quota_web (2 ^ 60) (2 ^ 60 + 1)) (Some 7) = Inr (Some (Finite 0))
   \<and> get_remaining_space array_web (Some 7) = Inl TypeError"
  using big_remaining
  by (simp add: get_remaining_space_def quota_web_def array_web_def remaining_of_response_def
      response_json_def quota_body_def py_str_def)

text \<open>
  C8 (amended). When the quota request is answered, the method returns absent exactly
  when the status is outside 200..299 or the body is a JSON object without the
  \<^verbatim>\<open>quota\<close> or the \<^verbatim>\<open>quota_used\<close> member. For a 2xx answer whose object holds integer byte
  counts from \<open>0\<close> up to, but excluding, \<open>2 ^ 53\<close>, it returns without raising the exact
  value of (quota - quota_used) / (1024 * 1024), which is negative whenever more is used
  than the quota allows.
\<close>

theorem get_remaining_space_contract:
  assumes "www (GetQuota user_id) = Inr response"
  shows "(get_remaining_space www user_id = Inr None \<longleftrightarrow>
            (\<not> (200 \<le> status_code response \<and> status_code response < 300)
             \<or> (\<exists>kvs. json_body response = Some (JObj kvs)
                   \<and> (map_of (rev kvs) (py_str ''quota'') = None
                      \<or> map_of (rev kvs) (py_str ''quota_used'') = None))))
         \<and> (200 \<le> status_code response \<and> status_code response < 300
              \<and> json_body response = Some (JObj kvs)
              \<and> map_of (rev kvs) (py_str ''quota'') = Some (JInt q)
              \<and> map_of (rev kvs) (py_str ''quota_used'') = Some (JInt u)
              \<and> 0 \<le> q \<and> q < 2 ^ 53 \<and> 0 \<le> u \<and> u < 2 ^ 53
            \<longrightarrow> get_remaining_space www user_id
                  = Inr (Some (Finite (of_int (q - u) / (1024 * 1024))))
                \<and> (q < u \<longrightarrow> float_negative (Finite (of_int (q - u) / (1024 * 1024)))))"
proof (intro conjI impI)
  show "get_remaining_space www user_id = Inr None \<longleftrightarrow>
            (\<not> (200 \<le> status_code response \<and> status_code response < 300)
             \<or> (\<exists>kvs. json_body response = Some (JObj kvs)
                   \<and> (map_of (rev kvs) (py_str ''quota'') = None
                      \<or> map_of (rev kvs) (py_str ''quota_used'') = None)))"
    using assms remaining_of_response_absent [of response]
    by (simp add: get_remaining_space_def)
next
  assume h: "200 \<le> status_code response \<and> status_code response < 300
              \<and> json_body response = Some (JObj kvs)
              \<and> map_of (rev kvs) (py_str ''quota'') = Some (JInt q)
              \<and> map_of (rev kvs) (py_str ''quota_used'') = Some (JInt u)
              \<and> 0 \<le> q \<and> q < 2 ^ 53 \<and> 0 \<le> u \<and> u < 2 ^ 53"
  then have "remaining_of_response response
      = Inr (Some (Finite (of_int (q - u) / (1024 * 1024))))"
    using remaining_of_response_value [of response kvs q u] by blast
  with assms show "get_remaining_space www user_id
      = Inr (Some (Finite (of_int (q - u) / (1024 * 1024))))"
    by (simp add: get_remaining_space_def)
next
  assume "q < u"
  then show "float_negative (Finite (of_int (q - u) / (1024 * 1024)))" by simp
qed

theorem get_remaining_space_contract_witness:
  "quota_web 52428800 62914560 (GetQuota (Some 7))
     = Inr \<lparr> status_code = 200, json_body = Some (quota_body 52428800 62914560) \<rparr>
   \<and> get_remaining_space (quota_web 52428800 62914560) (Some 7) = Inr (Some (Finite (- 10)))
   \<and> float_negative (Finite (- 10))"
proof -
  have h: "quota_web 52428800 62914560 (GetQuota (Some 7))
     = Inr \<lparr> status_code = 200, json_body = Some (quota_body 52428800 62914560) \<rparr>"
    by (simp add: quota_web_def)
  from get_remaining_space_contract
    [where www = "quota_web 52428800 62914560" and user_id = "Some 7"
       and kvs = "[(py_str ''quota'', JInt 52428800), (py_str ''quota_used'', JInt 62914560)]"
       and q = 52428800 and u = 62914560, OF h]
  have "get_remaining_space (quota_web 52428800 62914560) (Some 7) = Inr (Some (Finite (- 10)))"
    by (simp add: quota_body_def py_str_def)
  with h show ?thesis by simp
qed

section \<open>Properties of the dispatcher\<close>

lemmas path_eval = py_str_def listdir_def isdir_def isfile_def stat_def resolve_def path_join_def
  basename_def splitext_ext_def path_exists_def getsize_def open_rb_def

lemmas sel_eval = file_selected_def user_pattern_def is_special_def dot_def lit_def

lemmas disp_eval = upload_user_files_to_canvas_based_on_quota_def process_user_def
  upload_for_user_def upload_one_def canvas_interaction_def emit_def folder_truthy_def
  the_folder_def content_type_of_def start_def example_cfg_def example_lookup_def

lemma size10: "int_true_div 10 1048576 = Inr (10 / 1048576)"
  using int_true_div_mb [of 10] by simp

lemma size20: "int_true_div 20 1048576 = Inr (20 / 1048576)"
  using int_true_div_mb [of 20] by simp

lemmas all_eval = disp_eval lms_eval path_eval sel_eval upload_file_def complete_upload_def
  ticket_request_def response_json_def staging_fs_def size10 size20 quota_query_def
  after_quota_def relocate_def quarantine_dir_def quarantine_path_def makedirs_def move_def
  move_target_def rename_tree_def prefixes_of_def is_file_node_def is_dir_node_def
  remaining_of_response_def quota_body_def resolved_lms_def

text \<open>
  The second end-to-end scenario of the specification: the ticket for \<^verbatim>\<open>alice\<close>'s report
  is refused with 507; the report ends in her directory of the holding area and is gone
  from the staging directory. And the same run when the quota request fails in
  transport: the report stays where it was.
\<close>

lemma scenario_full:
  "upload_user_files_to_canvas_based_on_quota example_cfg
     (canvas_interaction example_lookup full_web) (py_str ''sem'')
     [py_str ''alice'', py_str ''bob''] (start staging_fs)
   = \<lparr> st_fs =
         [([py_str ''sem''], Dir 0),
          ([py_str ''sem'', py_str ''report_bob.pdf''], File 20),
          ([py_str ''held''], Dir 0),
          ([py_str ''held'', py_str ''file_storage_exceeded_alice''], Dir 0),
          ([py_str ''held'', py_str ''file_storage_exceeded_alice'', py_str ''report_alice.pdf''],
           File 10)],
       st_world = resolved_lms,
       st_trace =
         [CallGetUserId (py_str ''alice''),
          CallGetOrCreateFolder (Some 7) (py_str ''reports/2024''),
          CallUploadFile (FolderId 4) (py_str ''report_alice.pdf'')
            (py_str ''sem/report_alice.pdf'') (py_str ''application/pdf'') (Some 7),
          Log (UploadFailed (py_str ''report_alice.pdf'') (py_str ''alice'')),
          CallQuota (Some 7),
          Log (Moved (py_str ''sem/report_alice.pdf'')
                 (py_str ''held/file_storage_exceeded_alice/report_alice.pdf'')),
          CallGetUserId (py_str ''bob''),
          CallGetOrCreateFolder None (py_str ''reports/2024''),
          Log (NoSubfolder None)] \<rparr>"
  by (simp add: all_eval remaining_mb_exact [of 52428800 52428800, simplified])

lemma scenario_quota_down:
  "upload_user_files_to_canvas_based_on_quota example_cfg
     (canvas_interaction example_lookup quota_down_web) (py_str ''sem'')
     [py_str ''alice'', py_str ''bob''] (start staging_fs)
   = \<lparr> st_fs = staging_fs,
       st_world = resolved_lms,
       st_trace =
         [CallGetUserId (py_str ''alice''),
          CallGetOrCreateFolder (Some 7) (py_str ''reports/2024''),
          CallUploadFile (FolderId 4) (py_str ''report_alice.pdf'')
            (py_str ''sem/report_alice.pdf'') (py_str ''application/pdf'') (Some 7),
          Log (UploadFailed (py_str ''report_alice.pdf'') (py_str ''alice'')),
          CallQuota (Some 7),
          Log (QuotaUnavailable (py_str ''alice'')),
          CallGetUserId (py_str ''bob''),
          CallGetOrCreateFolder None (py_str ''reports/2024''),
          Log (NoSubfolder None)] \<rparr>"
  by (simp add: all_eval)

text \<open>
  C1. The claim holds for a numeric status outside 200..299, as the scenario above shows,
  but not for an absent upload result. When the ticket request fails in transport,
  \<open>upload_file\<close> returns \<^verbatim>\<open>None\<close>; the comparison of line 120 raises \<^verbatim>\<open>TypeError\<close>, the
  handler of line 139 logs it and the run ends: the report is still in the staging
  directory, nothing is in the holding area, and the next recipient is never looked up.
\<close>

theorem dispatch_absent_upload_result:
  "upload_user_files_to_canvas_based_on_quota example_cfg
     (canvas_interaction example_lookup down_web) (py_str ''sem'')
     [py_str ''alice'', py_str ''bob''] (start staging_fs)
   = \<lparr> st_fs = staging_fs,
       st_world = resolved_lms,
       st_trace =
         [CallGetUserId (py_str ''alice''),
          CallGetOrCreateFolder (Some 7) (py_str ''reports/2024''),
          CallUploadFile (FolderId 4) (py_str ''report_alice.pdf'')
            (py_str ''sem/report_alice.pdf'') (py_str ''application/pdf'') (Some 7),
          Log (ProcessingError TypeError)] \<rparr>
   \<and> stat staging_fs (py_str ''sem/report_alice.pdf'') = Some (File 10)
   \<and> stat staging_fs (py_str ''held/file_storage_exceeded_alice/report_alice.pdf'') = None"
  by (simp add: all_eval down_web_def)

text \<open>
  C2. The dispatcher does not test the user id. For \<^verbatim>\<open>bob\<close>, whose lookup returns absent,
  it calls \<open>get_or_create_folder\<close> with that absent id; the call fails inside the client,
  and the recipient is skipped only after the error line of line 96. No upload is made
  for \<^verbatim>\<open>bob\<close> and the run goes on to its end.
\<close>

theorem dispatch_unknown_user:
  "upload_user_files_to_canvas_based_on_quota example_cfg
     (canvas_interaction example_lookup ok_web) (py_str ''sem'')
     [py_str ''alice'', py_str ''bob''] (start staging_fs)
   = \<lparr> st_fs = staging_fs,
       st_world = resolved_lms,
       st_trace =
         [CallGetUserId (py_str ''alice''),
          CallGetOrCreateFolder (Some 7) (py_str ''reports/2024''),
          CallUploadFile (FolderId 4) (py_str ''report_alice.pdf'')
            (py_str ''sem/report_alice.pdf'') (py_str ''application/pdf'') (Some 7),
          CallGetUserId (py_str ''bob''),
          CallGetOrCreateFolder None (py_str ''reports/2024''),
          Log (NoSubfolder None)] \<rparr>"
  by (simp add: all_eval ok_web_def)

text \<open>
  C3. The user name is pasted into the pattern unescaped, \<^verbatim>\<open>.\<close> is a wildcard and the
  pattern is not anchored. The report of the user \<^verbatim>\<open>a(b)\<close>, whose name ends with the
  user name and \<^verbatim>\<open>.pdf\<close>, is not selected; \<^verbatim>\<open>abXpdf.txt\<close>, which does not, is selected
  for the user \<^verbatim>\<open>ab\<close>; and for the user \<^verbatim>\<open>a(\<close> the search raises.
\<close>

theorem selection_counterexamples:
  "file_selected (py_str ''a(b)'') (py_str ''report_a(b).pdf'') = Inr False
   \<and> has_user_pdf_suffix (py_str ''a(b)'') (py_str ''report_a(b).pdf'')
   \<and> file_selected (py_str ''ab'') (py_str ''abXpdf.txt'') = Inr True
   \<and> \<not> has_user_pdf_suffix (py_str ''ab'') (py_str ''abXpdf.txt'')
   \<and> file_selected (py_str ''a('') (py_str ''report_a(.pdf'') = Inl ReError"
  by (simp add: sel_eval has_user_pdf_suffix_def py_str_def)

text \<open>
  After an upload that ends with a status code outside 200..299, the file system is the
  one that the relocation gives from the file system before, whatever the quota query
  returned, a number or absent; when the quota query raises, the file system is
  unchanged.
\<close>

lemma upload_one_file_state:
  assumes "c_upload_file c (st_world st) (st_fs st) sub_folder_id (basename file) file
             (content_type_of file) user_id = (Inr (Some response_code), w1)"
    and "\<not> (200 \<le> response_code \<and> response_code < 300)"
    and "quota_query cfg c w1 user_id = (outcome, w2, calls)"
  shows "st_fs (fst (upload_one cfg c user_name user_id sub_folder_id file st))
         = (case outcome of
              Inl e \<Rightarrow> st_fs st
            | Inr remaining_space_mb \<Rightarrow> fst (relocate cfg user_name file (st_fs st)))"
  using assms
  by (auto simp: upload_one_def after_quota_def emit_def split: sum.splits prod.splits option.splits)

text \<open>
  C7. The value that the quota query returns, a number or absent, does not change what
  happens to the file, as the lemma above shows. A quota query that fails does: the
  query and the move share the \<^verbatim>\<open>try\<close> block of lines 123-137, so the exception is caught
  by the handler of line 135 and the move is skipped. With the ticket refused with 507, a
  quota request that is answered leaves the report in the holding area and no longer in
  the staging directory; one that fails in transport leaves the report in the staging
  directory and nothing in the holding area.
\<close>

theorem dispatch_quota_query_raises:
  "stat (st_fs (upload_user_files_to_canvas_based_on_quota example_cfg
           (canvas_interaction example_lookup full_web) (py_str ''sem'')
           [py_str ''alice'', py_str ''bob''] (start staging_fs)))
     (py_str ''sem/report_alice.pdf'') = None
   \<and> stat (st_fs (upload_user_files_to_canvas_based_on_quota example_cfg
           (canvas_interaction example_lookup full_web) (py_str ''sem'')
           [py_str ''alice'', py_str ''bob''] (start staging_fs)))
     (py_str ''held/file_storage_exceeded_alice/report_alice.pdf'') = Some (File 10)
   \<and> stat (st_fs (upload_user_files_to_canvas_based_on_quota example_cfg
           (canvas_interaction example_lookup quota_down_web) (py_str ''sem'')
           [py_str ''alice'', py_str ''bob''] (start staging_fs)))
     (py_str ''sem/report_alice.pdf'') = Some (File 10)
   \<and> stat (st_fs (upload_user_files_to_canvas_based_on_quota example_cfg
           (canvas_interaction example_lookup quota_down_web) (py_str ''sem'')
           [py_str ''alice'', py_str ''bob''] (start staging_fs)))
     (py_str ''held/file_storage_exceeded_alice/report_alice.pdf'') = None"
  unfolding scenario_full scenario_quota_down
  by (simp add: staging_fs_def path_eval)

section \<open>Properties of \<open>upload_file\<close>\<close>

text \<open>
  C6. When the upload-ticket request (phase 1) is answered with a status code outside
  200..299, \<open>upload_file\<close> returns exactly that status code and the ticket request is the
  only request it has sent: the binary transfer (phase 2) is not attempted.
\<close>

theorem upload_file_ticket_failure:
  assumes "getsize fsys file_path = Inr sz"
    and "www (ticket_request folder_id file_name sz content_type user_id) = Inr response"
    and "\<not> (200 \<le> status_code response \<and> status_code response < 300)"
  shows "upload_file www fsys folder_id file_name file_path content_type user_id
         = (Some (status_code response),
            [ticket_request folder_id file_name sz content_type user_id])"
proof -
  from assms(1) have "path_exists fsys file_path"
    by (auto simp: getsize_def path_exists_def split: option.splits)
  with assms show ?thesis
    by (simp add: upload_file_def)
qed

theorem upload_file_ticket_failure_witness:
  "upload_file (\<lambda>r. Inr \<lparr> status_code = 507, json_body = None \<rparr>)
     [([py_str ''sem'', py_str ''report_alice.pdf''], File 10)]
     (FolderId 3) (py_str ''report_alice.pdf'') (py_str ''sem/report_alice.pdf'')
     (py_str ''application/pdf'') (Some 7)
   = (Some 507,
      [ticket_request (FolderId 3) (py_str ''report_alice.pdf'') 10
         (py_str ''application/pdf'') (Some 7)])"
proof -
  have sz: "getsize [([py_str ''sem'', py_str ''report_alice.pdf''], File 10)]
              (py_str ''sem/report_alice.pdf'') = Inr 10"
    by (simp add: getsize_def stat_def resolve_def py_str_def)
  show ?thesis
    using upload_file_ticket_failure
      [OF sz, of "\<lambda>r. Inr \<lparr> status_code = 507, json_body = None \<rparr>"
        "FolderId 3" "py_str ''report_alice.pdf''" "py_str ''application/pdf''" "Some 7"
        "\<lparr> status_code = 507, json_body = None \<rparr>"]
    by simp
qed

end
